theory Spec2Isabelle
  imports Main "HOL-Library.Word" "HOL-Library.Sublist" "HOL-Library.Multiset"
begin

section \<open>Cloudprober: the command-line entry point and the Prober orchestrator\<close>

text \<open>
  A shallow embedding of \<^verbatim>\<open>src/cmd/cloudprober.go\<close>: the functions
  \<^verbatim>\<open>configFileToString\<close> and \<^verbatim>\<open>getConfig\<close> of package main, and
  \<^verbatim>\<open>InitFromConfig\<close> and \<^verbatim>\<open>Prober.Start\<close> of package cloudprober.

  The packages the file imports (config, logger, probes, servers, surfacers, sysvars,
  rtcreporter, glog, the file system, the GCE metadata server, the clock) are not part of
  the file.  Each call into them is a parameter of the model: a function that gives the
  value the call returns.  A Go result pair \<^verbatim>\<open>(v, err)\<close> is a sum, with the
  error on the left.
\<close>

subsection \<open>Errors, logging and process exit\<close>

text \<open>A Go \<^verbatim>\<open>error\<close> value, with the text that \<^verbatim>\<open>%v\<close> prints for it.\<close>

datatype error = Error (message: string)

text \<open>
  What glog is asked to print.  \<^verbatim>\<open>glog.Infof\<close> prints and returns;
  \<^verbatim>\<open>glog.Exitf\<close> prints and ends the process (\<^verbatim>\<open>os.Exit(1)\<close>), so the
  statement after it is never reached.
\<close>

datatype log_entry = Infof string | Errorf string | Exitf string

text \<open>
  The outcome of a function that may end the process instead of returning:
  \<^verbatim>\<open>Return v\<close> when it returns \<open>v\<close>, \<^verbatim>\<open>Exit m\<close> when
  \<^verbatim>\<open>glog.Exitf\<close> ended the process with message \<open>m\<close>.
\<close>

datatype 'a proc = Return 'a | Exit string

subsection \<open>Package main: where the configuration text comes from\<close>

text \<open>
  The environment of \<^verbatim>\<open>getConfig\<close>: the value of the flag
  \<^verbatim>\<open>--config_file\<close>, \<^verbatim>\<open>ioutil.ReadFile\<close>,
  \<^verbatim>\<open>metadata.OnGCE()\<close> and \<^verbatim>\<open>config.ReadFromGCEMetadata\<close>.
\<close>

record main_env =
  configFile :: string
  ReadFile :: "string \<Rightarrow> error + string"
  OnGCE :: bool
  ReadFromGCEMetadata :: "string \<Rightarrow> error + string"

definition configMetadataKeyName :: string where
  "configMetadataKeyName = ''cloudprober_config''"

definition defaultConfigFile :: string where
  "defaultConfigFile = ''/etc/cloudprober.cfg''"

text \<open>
  \<^verbatim>\<open>
  func configFileToString(fileName string) string {
      b, err := ioutil.ReadFile(fileName)
      if err != nil {
          glog.Exitf("Failed to read the config file: %v", err)
      }
      return string(b)
  }
  \<close>
\<close>

definition configFileToString :: "main_env \<Rightarrow> string \<Rightarrow> string proc" where
  "configFileToString env fileName =
     (case ReadFile env fileName of
        Inl err \<Rightarrow> Exit (''Failed to read the config file: '' @ message err)
      | Inr b \<Rightarrow> Return b)"

text \<open>
  \<^verbatim>\<open>
  func getConfig() string {
      if *configFile != "" {
          return configFileToString(*configFile)
      }
      if metadata.OnGCE() {
          if config, err := config.ReadFromGCEMetadata(configMetadataKeyName); err != nil {
              glog.Infof("Error reading config from metadata. Err: %v", err)
          } else {
              return config
          }
      }
      return configFileToString(defaultConfigFile)
  }
  \<close>
  The result is the list of messages logged before the function ends, and how it ends.
\<close>

definition getConfig :: "main_env \<Rightarrow> log_entry list \<times> string proc" where
  "getConfig env =
     (if configFile env \<noteq> [] then ([], configFileToString env (configFile env))
      else if OnGCE env then
        (case ReadFromGCEMetadata env configMetadataKeyName of
           Inl err \<Rightarrow>
             ([Infof (''Error reading config from metadata. Err: '' @ message err)],
              configFileToString env defaultConfigFile)
         | Inr config \<Rightarrow> ([], Return config))
      else ([], configFileToString env defaultConfigFile))"

text \<open>
  Three machines, for concrete evaluation: one off GCE, started with the flag, with that
  one configuration file on disk; one on GCE, started without the flag, with the metadata
  attribute set; and one on GCE without the attribute, with the default file on disk.
\<close>

definition sample_main_env :: main_env where
  "sample_main_env =
     \<lparr> configFile = ''/tmp/cp.cfg'',
       ReadFile = (\<lambda>f. if f = ''/tmp/cp.cfg'' then Inr ''probe {}''
                        else Inl (Error ''no such file or directory'')),
       OnGCE = False,
       ReadFromGCEMetadata = (\<lambda>k. Inl (Error ''not on GCE'')) \<rparr>"

definition gce_main_env :: main_env where
  "gce_main_env =
     \<lparr> configFile = [],
       ReadFile = (\<lambda>f. Inl (Error ''no such file or directory'')),
       OnGCE = True,
       ReadFromGCEMetadata = (\<lambda>k. if k = ''cloudprober_config'' then Inr ''surfacer {}''
                                   else Inl (Error ''attribute not found'')) \<rparr>"

definition fallback_main_env :: main_env where
  "fallback_main_env =
     \<lparr> configFile = [],
       ReadFile = (\<lambda>f. if f = ''/etc/cloudprober.cfg'' then Inr ''server {}''
                        else Inl (Error ''no such file or directory'')),
       OnGCE = True,
       ReadFromGCEMetadata = (\<lambda>k. Inl (Error ''attribute not found'')) \<rparr>"

subsection \<open>Package cloudprober: the data the Prober holds\<close>

text \<open>Go's \<^verbatim>\<open>int64\<close> and \<^verbatim>\<open>int32\<close>: addition wraps around, \<open>sint\<close> reads the value.\<close>

type_synonym int64 = "64 word"
type_synonym int32 = "32 word"

text \<open>
  \<^verbatim>\<open>*os.File\<close>: an object with a state \<open>'f\<close> and a \<^verbatim>\<open>Write\<close> method that
  takes the bytes, changes the state and returns the error (\<open>None\<close> for \<^verbatim>\<open>nil\<close>).
\<close>

datatype 'f os_file = File (fstate: 'f) (fwrite: "'f \<Rightarrow> string \<Rightarrow> 'f \<times> error option")

text \<open>
  A \<^verbatim>\<open>surfacers.Surfacer\<close>: an object with a state \<open>'s\<close> and a
  \<^verbatim>\<open>Write(ctx, em)\<close> method.  A call returns (with the new state, and possibly a
  report of failure, which a call used as a statement discards), or panics, or never
  returns.
\<close>

datatype 's write_result = Returned 's "error option" | Panicked | NeverReturns

fun returns :: "'s write_result \<Rightarrow> bool" where
  "returns (Returned st r) = True"
| "returns Panicked = False"
| "returns NeverReturns = False"

datatype ('em, 's) surfacer = Surfacer (sstate: 's) (Write: "'s \<Rightarrow> 'em \<Rightarrow> 's write_result")

text \<open>
  \<^verbatim>\<open>*config.ProberConfig\<close>, through its getters.  The messages inside it (probe,
  surfacer and server definitions, target options, reporter options) are opaque to this
  file: they are values of one type \<open>'msg\<close>.
\<close>

record 'msg ProberConfig =
  GetProbe :: "'msg list"
  GetSurfacer :: "'msg list"
  GetServer :: "'msg list"
  GetGlobalTargetsOptions :: "'msg option"
  GetOutputFile :: string
  GetOutputPrefix :: string
  GetSysvarsIntervalMsec :: int32
  GetSysvarsEnvVar :: string
  GetRtcReportOptions :: "'msg option"

text \<open>
  \<^verbatim>\<open>
  type Prober struct {
      Probes      map[string]probes.Probe
      logFailCnt  int64
      c           *config.ProberConfig
      outf        *os.File
      rtcReporter *rtcreporter.Reporter
      surfacers   []surfacers.Surfacer
  }
  \<close>
  The map \<^verbatim>\<open>Probes\<close> is a list of pairs of a name and a probe; Go does not
  specify the order in which \<^verbatim>\<open>range\<close> visits a map, and the list's order stands
  for whichever order the run takes.
\<close>

record ('msg, 'em, 's, 'f, 'p, 'r) Prober =
  Probes :: "(string \<times> 'p) list"
  logFailCnt :: int64
  c :: "'msg ProberConfig"
  outf :: "'f os_file"
  rtcReporter :: "'r option"
  surfacers :: "('em, 's) surfacer list"

subsection \<open>The dispatcher: the goroutine that \<^verbatim>\<open>Start\<close> runs over the channel\<close>

text \<open>
  What code of this file can do to the world: a \<^verbatim>\<open>fmt.Fprintf\<close> on the
  output file (the identifier passed for \<^verbatim>\<open>%d\<close>, the bytes handed to the file, the
  error the write returned), a call of the \<open>i\<close>-th surfacer's \<^verbatim>\<open>Write\<close> with a
  record, or a message handed to the log.  The dispatcher's code has calls of the first two
  kinds only.
\<close>

datatype 'em event =
    Fprintf int64 string "error option"
  | SurfacerWrite nat 'em
  | Glog log_entry

text \<open>The verb \<^verbatim>\<open>%d\<close>: a decimal numeral, with a minus sign for a negative number.\<close>

fun digits :: "nat \<Rightarrow> string" where
  "digits n =
     (if n < 10 then [''0123456789'' ! n]
      else digits (n div 10) @ [''0123456789'' ! (n mod 10)])"

declare digits.simps [simp del]

definition fmt_d :: "int \<Rightarrow> string" where
  "fmt_d i = (if i < 0 then CHR ''-'' # digits (nat (- i)) else digits (nat i))"




text \<open>\<^verbatim>\<open>fmt.Sprintf("%s %d %s\n", prefix, id, s)\<close>\<close>

definition sprintf_line :: "string \<Rightarrow> int64 \<Rightarrow> string \<Rightarrow> string" where
  "sprintf_line pfx i s = pfx @ '' '' @ fmt_d (sint i) @ '' '' @ s @ [CHR 0x0A]"

text \<open>
  \<^verbatim>\<open>
  for _, s := range pr.surfacers {
      s.Write(context.Background(), em)
  }
  \<close>
  from the surfacer at index \<open>i\<close> on.  The result is the calls made and the surfacers
  after them, or \<open>None\<close> when a call did not return.  Nothing in \<^verbatim>\<open>Start\<close>
  recovers a panic, so a panic ends the loop (and the process); a call that never returns
  holds the loop for ever.  Either way the loop makes no further call.
\<close>

fun fanout ::
  "nat \<Rightarrow> ('em, 's) surfacer list \<Rightarrow> 'em \<Rightarrow> 'em event list \<times> ('em, 's) surfacer list option"
where
  "fanout i [] em = ([], Some [])"
| "fanout i (s # ss) em =
     (case Write s (sstate s) em of
        Panicked \<Rightarrow> ([SurfacerWrite i em], None)
      | NeverReturns \<Rightarrow> ([SurfacerWrite i em], None)
      | Returned st' r \<Rightarrow>
          (case fanout (Suc i) ss em of
             (evs, None) \<Rightarrow> (SurfacerWrite i em # evs, None)
           | (evs, Some ss') \<Rightarrow>
               (SurfacerWrite i em # evs, Some (Surfacer st' (Write s) # ss'))))"

text \<open>
  The state of the loop: the local variable \<^verbatim>\<open>id\<close> and the Prober the closure
  captured, whose file and surfacers the loop's calls change.
\<close>

record ('msg, 'em, 's, 'f, 'p, 'r) dispatcher =
  seq_id :: int64
  prober :: "('msg, 'em, 's, 'f, 'p, 'r) Prober"

text \<open>
  One turn of the loop, for the record \<open>em\<close> received from the channel:
  \<^verbatim>\<open>
  s = em.String()
  fmt.Fprintf(pr.outf, "%s %d %s\n", pr.c.GetOutputPrefix(), id, s)
  id++
  for _, s := range pr.surfacers { s.Write(context.Background(), em) }
  \<close>
  \<open>String\<close> is \<^verbatim>\<open>em.String()\<close>.  The results of \<^verbatim>\<open>Fprintf\<close> are
  discarded.  The result is the events of the turn and the state for the next turn,
  \<open>None\<close> when a call of a surfacer did not return: then there is no next turn.
\<close>

definition dispatch_one ::
  "('em \<Rightarrow> string) \<Rightarrow> ('msg, 'em, 's, 'f, 'p, 'r) dispatcher \<Rightarrow> 'em
     \<Rightarrow> 'em event list \<times> ('msg, 'em, 's, 'f, 'p, 'r) dispatcher option"
where
  "dispatch_one String d em =
     (let pr = prober d;
          s = String em;
          line = sprintf_line (GetOutputPrefix (c pr)) (seq_id d) s;
          (f', err) = fwrite (outf pr) (fstate (outf pr)) line;
          id' = seq_id d + 1
      in case fanout 0 (surfacers pr) em of
           (evs, None) \<Rightarrow> (Fprintf (seq_id d) line err # evs, None)
         | (evs, Some ss') \<Rightarrow>
             (Fprintf (seq_id d) line err # evs,
              Some \<lparr> seq_id = id',
                     prober = pr \<lparr> outf := File f' (fwrite (outf pr)), surfacers := ss' \<rparr> \<rparr>))"

text \<open>
  The loop \<^verbatim>\<open>for { em = <-dataChan; ... }\<close> over the records it receives, in the
  order it receives them.  The loop has no exit: it takes a turn for each record that
  arrives, for as long as every call of a surfacer returns.
\<close>

fun dispatch ::
  "('em \<Rightarrow> string) \<Rightarrow> ('msg, 'em, 's, 'f, 'p, 'r) dispatcher \<Rightarrow> 'em list
     \<Rightarrow> 'em event list \<times> ('msg, 'em, 's, 'f, 'p, 'r) dispatcher option"
where
  "dispatch String d [] = ([], Some d)"
| "dispatch String d (em # ems) =
     (case dispatch_one String d em of
        (evs, None) \<Rightarrow> (evs, None)
      | (evs, Some d') \<Rightarrow>
          (case dispatch String d' ems of (evs', r) \<Rightarrow> (evs @ evs', r)))"

text \<open>
  The goroutine: \<^verbatim>\<open>id := time.Now().UnixNano()\<close>, once, and then the loop.
  \<open>now\<close> is the value the clock gives.
\<close>

definition Dispatcher ::
  "('em \<Rightarrow> string) \<Rightarrow> int64 \<Rightarrow> ('msg, 'em, 's, 'f, 'p, 'r) Prober \<Rightarrow> 'em list
     \<Rightarrow> 'em event list \<times> ('msg, 'em, 's, 'f, 'p, 'r) dispatcher option"
where
  "Dispatcher String now pr ems = dispatch String \<lparr> seq_id = now, prober = pr \<rparr> ems"

text \<open>The identifiers and the lines of the \<^verbatim>\<open>Fprintf\<close> events of a trace, in order.\<close>

fun sink_ids :: "'em event list \<Rightarrow> int64 list" where
  "sink_ids [] = []"
| "sink_ids (Fprintf i l e # evs) = i # sink_ids evs"
| "sink_ids (ev # evs) = sink_ids evs"

fun sink_lines :: "'em event list \<Rightarrow> string list" where
  "sink_lines [] = []"
| "sink_lines (Fprintf i l e # evs) = l # sink_lines evs"
| "sink_lines (ev # evs) = sink_lines evs"

text \<open>
  The identifiers of the lines that reached the file whole: those of the
  \<^verbatim>\<open>Fprintf\<close> events whose write returned no error, in order.
\<close>

fun written_ids :: "'em event list \<Rightarrow> int64 list" where
  "written_ids [] = []"
| "written_ids (Fprintf i l None # evs) = i # written_ids evs"
| "written_ids (ev # evs) = written_ids evs"

text \<open>The messages handed to the log in a trace, in order.\<close>

fun logged :: "'em event list \<Rightarrow> log_entry list" where
  "logged [] = []"
| "logged (Glog l # evs) = l # logged evs"
| "logged (ev # evs) = logged evs"

text \<open>
  What claim C2 says the dispatcher does for the records \<open>ems\<close>, when the first
  identifier is \<open>i0\<close>, the prefix \<open>pfx\<close>, there are \<open>n\<close> surfacers and the
  \<open>k\<close>-th write on the file returns \<open>errs ! k\<close>: for each record in turn, the
  \<^verbatim>\<open>Fprintf\<close> of its line and then one \<^verbatim>\<open>Write\<close> on each surfacer, in the
  order of registration.  This is the claim's wording, not the program.
\<close>

definition expected_trace ::
  "('em \<Rightarrow> string) \<Rightarrow> string \<Rightarrow> nat \<Rightarrow> int64 \<Rightarrow> 'em list \<Rightarrow> error option list
     \<Rightarrow> 'em event list"
where
  "expected_trace String pfx n i0 ems errs =
     concat (map (\<lambda>k.
         Fprintf (i0 + of_nat k) (sprintf_line pfx (i0 + of_nat k) (String (ems ! k))) (errs ! k)
         # map (\<lambda>j. SurfacerWrite j (ems ! k)) [0..<n])
       [0..<length ems])"

text \<open>Every call of every surfacer in the list returns, whatever its state and the record.\<close>

definition always_returns :: "('em, 's) surfacer list \<Rightarrow> bool" where
  "always_returns ss = (\<forall>s\<in>set ss. \<forall>st em. returns (Write s st em))"

subsection \<open>The channel\<close>

text \<open>
  A buffered Go channel: \<^verbatim>\<open>make(chan T, n)\<close> holds at most \<open>n\<close> values, first in,
  first out.  A send \<^verbatim>\<open>ch <- v\<close> on a full channel does not complete: the sending
  goroutine is suspended, and the channel is as it was.  A receive \<^verbatim>\<open><-ch\<close> on an
  empty channel is suspended in the same way.
\<close>

record 'a chan =
  chan_cap :: nat
  chan_buf :: "'a list"

definition make_chan :: "nat \<Rightarrow> 'a chan" where
  "make_chan n = \<lparr> chan_cap = n, chan_buf = [] \<rparr>"

datatype 'a send_result = Sent "'a chan" | SendBlocked

definition send :: "'a chan \<Rightarrow> 'a \<Rightarrow> 'a send_result" where
  "send ch v =
     (if length (chan_buf ch) < chan_cap ch then Sent (ch \<lparr> chan_buf := chan_buf ch @ [v] \<rparr>)
      else SendBlocked)"

datatype 'a recv_result = Received 'a "'a chan" | RecvBlocked

definition recv :: "'a chan \<Rightarrow> 'a recv_result" where
  "recv ch =
     (case chan_buf ch of
        [] \<Rightarrow> RecvBlocked
      | v # vs \<Rightarrow> Received v (ch \<lparr> chan_buf := vs \<rparr>))"

subsection \<open>The running pipeline: producers, the channel and the dispatcher\<close>

text \<open>
  What \<^verbatim>\<open>Start\<close> sets running: \<^verbatim>\<open>dataChan\<close>, the dispatcher goroutine
  (\<open>None\<close> once it takes no further turn) and everything the dispatcher has done so
  far.
  \<open>sent\<close> is a history variable: the records whose sends have completed, in order.
\<close>

record ('msg, 'em, 's, 'f, 'p, 'r) pipeline =
  dataChan :: "'em chan"
  loop :: "('msg, 'em, 's, 'f, 'p, 'r) dispatcher option"
  emitted :: "'em event list"
  sent :: "'em list"

text \<open>
  \<^verbatim>\<open>
  dataChan := make(chan *metrics.EventMetrics, 1000)
  go func() {
      id := time.Now().UnixNano()
      ...
  \<close>
\<close>

definition started ::
  "int64 \<Rightarrow> ('msg, 'em, 's, 'f, 'p, 'r) Prober \<Rightarrow> ('msg, 'em, 's, 'f, 'p, 'r) pipeline"
where
  "started now pr =
     \<lparr> dataChan = make_chan 1000,
       loop = Some \<lparr> seq_id = now, prober = pr \<rparr>,
       emitted = [],
       sent = [] \<rparr>"

text \<open>
  One step of the running pipeline.  Either some producer (a probe, the sysvars
  exporter, a server) completes a send of a record on \<^verbatim>\<open>dataChan\<close>, or the
  dispatcher receives the oldest record and takes its turn for it.  Which producer sends, and
  when, is not fixed.  Producers can go on sending while the dispatcher is held in a
  \<^verbatim>\<open>Write\<close> that never returns.  After a panic of the dispatcher the process is
  gone; the steps that the relation still allows then are sends that no run makes, and they
  change nothing the dispatcher did.
\<close>

inductive step ::
  "('em \<Rightarrow> string) \<Rightarrow> ('msg, 'em, 's, 'f, 'p, 'r) pipeline
     \<Rightarrow> ('msg, 'em, 's, 'f, 'p, 'r) pipeline \<Rightarrow> bool"
  for String :: "'em \<Rightarrow> string"
where
  producer_send:
    "send (dataChan \<sigma>) em = Sent ch' \<Longrightarrow>
     step String \<sigma> (\<sigma> \<lparr> dataChan := ch', sent := sent \<sigma> @ [em] \<rparr>)"
| dispatcher_turn:
    "loop \<sigma> = Some d \<Longrightarrow> recv (dataChan \<sigma>) = Received em ch' \<Longrightarrow>
     dispatch_one String d em = (evs, r) \<Longrightarrow>
     step String \<sigma> (\<sigma> \<lparr> dataChan := ch', loop := r, emitted := emitted \<sigma> @ evs \<rparr>)"

text \<open>The states the pipeline can be in, some steps after \<^verbatim>\<open>Start\<close>.\<close>

definition reachable ::
  "('em \<Rightarrow> string) \<Rightarrow> int64 \<Rightarrow> ('msg, 'em, 's, 'f, 'p, 'r) Prober
     \<Rightarrow> ('msg, 'em, 's, 'f, 'p, 'r) pipeline \<Rightarrow> bool"
where
  "reachable String now pr \<sigma> = (step String)\<^sup>*\<^sup>* (started now pr) \<sigma>"

text \<open>
  The pipeline after the records \<open>ems\<close> have been sent and handled one after the other:
  the channel is empty again.
\<close>

definition after_records ::
  "('em \<Rightarrow> string) \<Rightarrow> int64 \<Rightarrow> ('msg, 'em, 's, 'f, 'p, 'r) Prober \<Rightarrow> 'em list
     \<Rightarrow> ('msg, 'em, 's, 'f, 'p, 'r) pipeline"
where
  "after_records String now pr ems =
     \<lparr> dataChan = make_chan 1000,
       loop = snd (Dispatcher String now pr ems),
       emitted = fst (Dispatcher String now pr ems),
       sent = ems \<rparr>"

subsection \<open>Producers on the channel\<close>

text \<open>
  The producers with the channel between them and the dispatcher: for each producer the
  records it has still to send, in order; the channel; and the records the dispatcher has
  received from it (\<^verbatim>\<open>em = <-dataChan\<close>), in order.
\<close>

record 'em plant =
  producers :: "'em list list"
  bus :: "'em chan"
  received :: "'em list"

text \<open>
  Modelled from the spec: the send statements of the producers.  The producers
  (\<^verbatim>\<open>p.Run\<close>, \<^verbatim>\<open>sysvars.Run\<close>, the servers) are handed
  \<^verbatim>\<open>dataChan\<close> by \<^verbatim>\<open>Start\<close>, but their code is in packages that are not
  part of the file.  The spec says of the Event Bus: "Send(record) is a blocking operation
  from the producer's perspective -- if the bus is full, the producer suspends until space is
  available, applying backpressure to producers rather than dropping data."  So a producer
  sends the first record it has still to send with a plain \<^verbatim>\<open>dataChan <- em\<close>: when
  there is room the record joins the channel and the producer goes on to its next record;
  when the channel is full (or the producer has nothing to send) nothing happens, and the
  record stays where it is.
\<close>

definition producer_Send :: "'em chan \<Rightarrow> 'em list \<Rightarrow> ('em chan \<times> 'em list) option" where
  "producer_Send ch todo =
     (case todo of
        [] \<Rightarrow> None
      | r # rest \<Rightarrow> (case send ch r of Sent ch' \<Rightarrow> Some (ch', rest) | SendBlocked \<Rightarrow> None))"

text \<open>
  \<^verbatim>\<open>dataChan := make(chan *metrics.EventMetrics, 1000)\<close>, with the records each
  producer is going to send.
\<close>

definition plant_start :: "'em list list \<Rightarrow> 'em plant" where
  "plant_start plans = \<lparr> producers = plans, bus = make_chan 1000, received = [] \<rparr>"

text \<open>
  One step: some producer completes a send, or the dispatcher receives the oldest record
  in the channel.
\<close>

inductive plant_step :: "'em plant \<Rightarrow> 'em plant \<Rightarrow> bool" where
  Send:
    "p < length (producers s) \<Longrightarrow> producer_Send (bus s) (producers s ! p) = Some (ch', rest) \<Longrightarrow>
     plant_step s (s \<lparr> producers := (producers s)[p := rest], bus := ch' \<rparr>)"
| Receive:
    "recv (bus s) = Received r ch' \<Longrightarrow>
     plant_step s (s \<lparr> bus := ch', received := received s @ [r] \<rparr>)"

definition plant_reachable :: "'em list list \<Rightarrow> 'em plant \<Rightarrow> bool" where
  "plant_reachable plans s = plant_step\<^sup>*\<^sup>* (plant_start plans) s"

subsection \<open>Initialization and start\<close>

text \<open>A \<^verbatim>\<open>*logger.Logger\<close>, known by the log name it was made for.\<close>

datatype logger = Logger string

text \<open>The variables of package sysvars, \<^verbatim>\<open>map[string]string\<close>.\<close>

type_synonym vars = "(string \<times> string) list"

text \<open>
  The functions of other packages that \<^verbatim>\<open>InitFromConfig\<close> and
  \<^verbatim>\<open>Start\<close> call.
  \<^item> \<open>sysvars_Init l\<close> is what \<^verbatim>\<open>sysvars.Vars()\<close> returns after
    \<^verbatim>\<open>sysvars.Init(l, nil)\<close>.
  \<^item> \<^verbatim>\<open>probes.Init\<close> returns one value, the map of probes, and no error: the call
    returns the map, or it does not return and the process ends (\<open>Exit\<close>).
  \<^item> \<open>servers_Run_returns\<close> tells whether the call \<^verbatim>\<open>servers.Run(ctx, servers,
    dataChan)\<close> returns.
\<close>

record ('msg, 'em, 's, 'f, 'p, 'r) collaborators =
  logger_New :: "string \<Rightarrow> error + logger"
  sysvars_Init :: "logger \<Rightarrow> vars"
  config_Parse :: "string \<Rightarrow> vars \<Rightarrow> error + 'msg ProberConfig"
  os_Stdout :: "'f os_file"
  os_Create :: "string \<Rightarrow> error + 'f os_file"
  probes_Init :: "'msg list \<Rightarrow> 'msg option \<Rightarrow> vars \<Rightarrow> (string \<times> 'p) list proc"
  surfacers_New :: "'msg \<Rightarrow> error + ('em, 's) surfacer"
  rtcreporter_New :: "'msg \<Rightarrow> vars \<Rightarrow> logger \<Rightarrow> error + 'r"
  servers_Run_returns :: "'msg list \<Rightarrow> bool"

text \<open>
  The functions called or started as goroutines, and what a function does in its own flow of
  control: a call that it waits for, a \<^verbatim>\<open>go\<close> statement, a
  \<^verbatim>\<open>make(chan, n)\<close>, and the final \<^verbatim>\<open>select {}\<close>, which blocks forever.
\<close>

datatype ('msg, 'p, 'r) callee =
    LoggerNew string
  | SysvarsInit
  | ConfigParse
  | OsCreate string
  | ProbesInit
  | SurfacersNew 'msg
  | RtcReporterNew 'msg
  | DispatcherLoop
  | SysvarsRun int64 string
  | ServersRun "'msg list"
  | RtcReporterRun 'r
  | ProbeRun 'p

datatype ('msg, 'p, 'r) action =
    Call "('msg, 'p, 'r) callee"
  | Go "('msg, 'p, 'r) callee"
  | MakeChan nat
  | SelectForever

text \<open>
  An action that is a plain call: neither a \<^verbatim>\<open>go\<close> statement nor the making
  of a channel.
\<close>

definition is_Call :: "('msg, 'p, 'r) action \<Rightarrow> bool" where
  "is_Call a = (case a of Call f \<Rightarrow> True | _ \<Rightarrow> False)"

definition logsNamePrefix :: string where
  "logsNamePrefix = ''cloudprober''"

definition sysvarsModuleName :: string where
  "sysvarsModuleName = ''sysvars''"

text \<open>
  \<^verbatim>\<open>
  func (pr *Prober) newLogger(probeName string) (*logger.Logger, error) {
      return logger.New(context.Background(), logsNamePrefix+"."+probeName, &pr.logFailCnt)
  }
  \<close>
\<close>

definition newLogger ::
  "('msg, 'em, 's, 'f, 'p, 'r) collaborators \<Rightarrow> string \<Rightarrow> error + logger" where
  "newLogger env probeName = logger_New env (logsNamePrefix @ ''.'' @ probeName)"

text \<open>
  \<^verbatim>\<open>
  func (pr *Prober) parseSurfacers() error {
      for _, sConfig := range pr.c.GetSurfacer() {
          s, err := surfacers.New(sConfig)
          if err != nil {
              return err
          }
          pr.surfacers = append(pr.surfacers, s)
      }
      return nil
  }
  \<close>
  over the surfacer definitions still to visit, with \<^verbatim>\<open>pr.surfacers\<close> so far.  The
  result is the calls made, and the error or the final \<^verbatim>\<open>pr.surfacers\<close>.
\<close>

fun parseSurfacers ::
  "('msg, 'em, 's, 'f, 'p, 'r) collaborators \<Rightarrow> 'msg list \<Rightarrow> ('em, 's) surfacer list
     \<Rightarrow> ('msg, 'p, 'r) action list \<times> (error + ('em, 's) surfacer list)"
where
  "parseSurfacers env [] acc = ([], Inr acc)"
| "parseSurfacers env (sConfig # rest) acc =
     (case surfacers_New env sConfig of
        Inl err \<Rightarrow> ([Call (SurfacersNew sConfig)], Inl err)
      | Inr s \<Rightarrow>
          (case parseSurfacers env rest (acc @ [s]) of
             (calls, r) \<Rightarrow> (Call (SurfacersNew sConfig) # calls, r)))"

text \<open>
  \<^verbatim>\<open>InitFromConfig(configFile string) (*Prober, error)\<close>.  The result is the
  actions taken, and the pair returned (\<open>None\<close> for \<^verbatim>\<open>nil\<close>), or \<open>Exit\<close> when
  \<^verbatim>\<open>probes.Init\<close> did not return.
\<close>

definition InitFromConfig ::
  "('msg, 'em, 's, 'f, 'p, 'r) collaborators \<Rightarrow> string
     \<Rightarrow> ('msg, 'p, 'r) action list
        \<times> (('msg, 'em, 's, 'f, 'p, 'r) Prober option \<times> error option) proc"
where
  "InitFromConfig env configText =
     (let a1 = [Call (LoggerNew (logsNamePrefix @ ''.'' @ sysvarsModuleName))] in
      case newLogger env sysvarsModuleName of
        Inl err \<Rightarrow> (a1, Return (None, Some err))
      | Inr l \<Rightarrow>
     (let vars = sysvars_Init env l;
          a2 = a1 @ [Call SysvarsInit, Call ConfigParse] in
      case config_Parse env configText vars of
        Inl err \<Rightarrow> (a2, Return (None, Some err))
      | Inr cfg \<Rightarrow>
     (let a3 = a2 @ (if GetOutputFile cfg \<noteq> [] then [Call (OsCreate (GetOutputFile cfg))] else []) in
      case (if GetOutputFile cfg \<noteq> [] then os_Create env (GetOutputFile cfg)
            else Inr (os_Stdout env)) of
        Inl err \<Rightarrow> (a3, Return (None, Some err))
      | Inr f \<Rightarrow>
     (let a4 = a3 @ [Call ProbesInit] in
      case probes_Init env (GetProbe cfg) (GetGlobalTargetsOptions cfg) vars of
        Exit m \<Rightarrow> (a4, Exit m)
      | Return ps \<Rightarrow>
     (case parseSurfacers env (GetSurfacer cfg) [] of
        (calls, Inl err) \<Rightarrow> (a4 @ calls, Return (None, Some err))
      | (calls, Inr ss) \<Rightarrow>
     (let pr = \<lparr> Probes = ps, logFailCnt = 0, c = cfg, outf = f,
                  rtcReporter = None, surfacers = ss \<rparr>;
          a5 = a4 @ calls in
      case GetRtcReportOptions cfg of
        None \<Rightarrow> (a5, Return (Some pr, None))
      | Some opts \<Rightarrow>
     (let a6 = a5 @ [Call (LoggerNew (logsNamePrefix @ ''.'' @ ''rtc-reporter''))] in
      case newLogger env ''rtc-reporter'' of
        Inl err \<Rightarrow> (a6, Return (None, Some err))
      | Inr l2 \<Rightarrow>
     (case rtcreporter_New env opts vars l2 of
        Inl err \<Rightarrow> (a6 @ [Call (RtcReporterNew opts)], Return (None, Some err))
      | Inr r \<Rightarrow>
          (a6 @ [Call (RtcReporterNew opts)],
           Return (Some (pr \<lparr> rtcReporter := Some r \<rparr>), None))))))))))"

text \<open>
  \<^verbatim>\<open>
  func (pr *Prober) Start(ctx context.Context) {
      dataChan := make(chan *metrics.EventMetrics, 1000)
      go func() { ... }()
      go sysvars.Run(ctx, dataChan,
          time.Millisecond*time.Duration(pr.c.GetSysvarsIntervalMsec()), pr.c.GetSysvarsEnvVar())
      servers.Run(ctx, pr.c.GetServer(), dataChan)
      if pr.rtcReporter != nil {
          go pr.rtcReporter.Run(ctx)
      }
      for _, p := range pr.Probes {
          go p.Run(ctx, dataChan)
      }
      select {}
  }
  \<close>
  \<^verbatim>\<open>Start\<close> never returns.  The result is what it does in its own flow of control:
  the statements after \<^verbatim>\<open>servers.Run\<close> are reached only when that call returns.
\<close>

definition Start ::
  "('msg, 'em, 's, 'f, 'p, 'r) collaborators \<Rightarrow> ('msg, 'em, 's, 'f, 'p, 'r) Prober
     \<Rightarrow> ('msg, 'p, 'r) action list"
where
  "Start env pr =
     [MakeChan 1000,
      Go DispatcherLoop,
      Go (SysvarsRun (1000000 * scast (GetSysvarsIntervalMsec (c pr))) (GetSysvarsEnvVar (c pr))),
      Call (ServersRun (GetServer (c pr)))]
     @ (if servers_Run_returns env (GetServer (c pr)) then
          (case rtcReporter pr of None \<Rightarrow> [] | Some r \<Rightarrow> [Go (RtcReporterRun r)])
          @ map (\<lambda>(name, p). Go (ProbeRun p)) (Probes pr)
          @ [SelectForever]
        else [])"

subsection \<open>Concrete collaborators, for evaluation\<close>

text \<open>Records are their own text.\<close>

definition sample_String :: "string \<Rightarrow> string" where
  "sample_String em = em"

text \<open>A file that keeps every line written to it, and one on which every write fails.\<close>

definition recording_file :: "string list os_file" where
  "recording_file = File [] (\<lambda>written line. (written @ [line], None))"

definition failing_file :: "string list os_file" where
  "failing_file = File [] (\<lambda>written line. (written, Some (Error ''no space left on device'')))"

text \<open>
  A surfacer that keeps every record it is given, one that keeps the record and reports a
  failure, and one whose \<^verbatim>\<open>Write\<close> panics.
\<close>

definition recording_surfacer :: "(string, string list) surfacer" where
  "recording_surfacer = Surfacer [] (\<lambda>received em. Returned (received @ [em]) None)"

definition failing_surfacer :: "(string, string list) surfacer" where
  "failing_surfacer =
     Surfacer [] (\<lambda>received em. Returned (received @ [em]) (Some (Error ''backend unreachable'')))"

definition panicking_surfacer :: "(string, string list) surfacer" where
  "panicking_surfacer = Surfacer [] (\<lambda>received em. Panicked)"

definition sample_config :: "string ProberConfig" where
  "sample_config =
     \<lparr> GetProbe = [''p1'', ''p2''], GetSurfacer = [''s1''], GetServer = [],
       GetGlobalTargetsOptions = None, GetOutputFile = [], GetOutputPrefix = ''prefix'',
       GetSysvarsIntervalMsec = 10000, GetSysvarsEnvVar = [], GetRtcReportOptions = None \<rparr>"

definition sample_prober ::
  "(string, string, string list, string list, string, string) Prober" where
  "sample_prober =
     \<lparr> Probes = [(''p1'', ''probe p1''), (''p2'', ''probe p2'')], logFailCnt = 0,
       c = sample_config, outf = recording_file, rtcReporter = None,
       surfacers = [recording_surfacer] \<rparr>"

text \<open>
  The sample Prober with two surfacers, the first of which reports a failure; with two
  surfacers, the first of which panics; and with an output file on which every write fails.
\<close>

definition fanout_prober ::
  "(string, string, string list, string list, string, string) Prober" where
  "fanout_prober = sample_prober \<lparr> surfacers := [failing_surfacer, recording_surfacer] \<rparr>"

definition panicking_prober ::
  "(string, string, string list, string list, string, string) Prober" where
  "panicking_prober = sample_prober \<lparr> surfacers := [panicking_surfacer, recording_surfacer] \<rparr>"

definition failing_sink_prober ::
  "(string, string, string list, string list, string, string) Prober" where
  "failing_sink_prober = sample_prober \<lparr> outf := failing_file \<rparr>"

text \<open>
  The sample Prober with three surfacers, of which the second never returns from
  \<^verbatim>\<open>Write\<close>.
\<close>

definition stuck_prober ::
  "(string, string, string list, string list, string, string) Prober" where
  "stuck_prober =
     sample_prober \<lparr> surfacers :=
       [recording_surfacer, Surfacer [] (\<lambda>received em. NeverReturns), recording_surfacer] \<rparr>"

text \<open>
  A file that keeps the lines written to it, except that its second write fails and
  writes nothing; and the sample Prober with this file.
\<close>

definition flaky_file :: "(nat \<times> string list) os_file" where
  "flaky_file =
     File (0, [])
       (\<lambda>(calls, written) line.
           if calls = 1 then ((Suc calls, written), Some (Error ''input/output error''))
           else ((Suc calls, written @ [line]), None))"

definition flaky_prober ::
  "(string, string, string list, nat \<times> string list, string, string) Prober" where
  "flaky_prober =
     \<lparr> Probes = [(''p1'', ''probe p1''), (''p2'', ''probe p2'')], logFailCnt = 0,
       c = sample_config, outf = flaky_file, rtcReporter = None,
       surfacers = [recording_surfacer] \<rparr>"

text \<open>
  Two producers on a full channel: the first has sent its 1000 records, none of which
  has been received yet, and the second has one record to send.
\<close>

definition full_plant :: "string plant" where
  "full_plant =
     \<lparr> producers = [[], [''p2 value=1'']],
       bus = \<lparr> chan_cap = 1000, chan_buf = replicate 1000 ''p1 value=1'' \<rparr>,
       received = [] \<rparr>"

text \<open>
  Collaborators that parse five configuration texts: \<^verbatim>\<open>ok\<close> gives
  \<open>sample_config\<close>; \<^verbatim>\<open>dup\<close> the same with the probe \<^verbatim>\<open>p1\<close> defined
  twice; \<^verbatim>\<open>badsurfacer\<close> the same with a second surfacer that cannot be built;
  \<^verbatim>\<open>tofile\<close> the same with an output file; \<^verbatim>\<open>rtc\<close> the same with
  reporter options.  No file can be created.  This \<^verbatim>\<open>probes.Init\<close> ends the
  process when a probe name is defined twice.
\<close>

definition sample_env ::
  "(string, string, string list, string list, string, string) collaborators" where
  "sample_env =
     \<lparr> logger_New = (\<lambda>name. Inr (Logger name)),
       sysvars_Init = (\<lambda>l. [(''zone'', ''us-central1-a'')]),
       config_Parse = (\<lambda>configText vs.
          if configText = ''ok'' then Inr sample_config
          else if configText = ''dup'' then Inr (sample_config \<lparr> GetProbe := [''p1'', ''p1''] \<rparr>)
          else if configText = ''badsurfacer''
            then Inr (sample_config \<lparr> GetSurfacer := [''s1'', ''bad''] \<rparr>)
          else if configText = ''tofile''
            then Inr (sample_config \<lparr> GetOutputFile := ''/var/log/cloudprober.out'' \<rparr>)
          else if configText = ''rtc''
            then Inr (sample_config \<lparr> GetRtcReportOptions := Some ''variable: rtc'' \<rparr>)
          else Inl (Error ''parse error'')),
       os_Stdout = recording_file,
       os_Create = (\<lambda>path. Inl (Error ''permission denied'')),
       probes_Init = (\<lambda>defs opts vs.
          if distinct defs then Return (map (\<lambda>d. (d, ''probe '' @ d)) defs)
          else Exit ''Bad config: probe is already defined''),
       surfacers_New = (\<lambda>def.
          if def = ''bad'' then Inl (Error ''unknown surfacer type'') else Inr recording_surfacer),
       rtcreporter_New = (\<lambda>opts vs l. Inr ''reporter''),
       servers_Run_returns = (\<lambda>servers. True) \<rparr>"

text \<open>The same collaborators, with a \<^verbatim>\<open>servers.Run\<close> that does not return.\<close>

definition blocking_servers_env ::
  "(string, string, string list, string list, string, string) collaborators" where
  "blocking_servers_env = sample_env \<lparr> servers_Run_returns := (\<lambda>servers. False) \<rparr>"

section \<open>Properties\<close>

subsection \<open>The dispatcher loop\<close>

lemma sink_ids_append: "sink_ids (xs @ ys) = sink_ids xs @ sink_ids ys"
  by (induction xs rule: sink_ids.induct) simp_all

lemma sink_lines_append: "sink_lines (xs @ ys) = sink_lines xs @ sink_lines ys"
  by (induction xs rule: sink_lines.induct) simp_all

lemma fanout_sink_ids: "fanout i ss em = (evs, r) \<Longrightarrow> sink_ids evs = []"
  by (induction ss arbitrary: i evs r)
     (auto split: write_result.splits prod.splits option.splits)

lemma fanout_sink_lines: "fanout i ss em = (evs, r) \<Longrightarrow> sink_lines evs = []"
  by (induction ss arbitrary: i evs r)
     (auto split: write_result.splits prod.splits option.splits)

lemma fanout_Some_Write:
  "fanout i ss em = (evs, Some ss') \<Longrightarrow> map Write ss' = map Write ss"
  by (induction ss arbitrary: i ss' evs)
     (auto split: write_result.splits prod.splits option.splits)

lemma fanout_Some_events:
  "fanout i ss em = (evs, Some ss') \<Longrightarrow>
   evs = map (\<lambda>k. SurfacerWrite k em) [i..<i + length ss]"
proof (induction ss arbitrary: i ss' evs)
  case Nil
  then show ?case by simp
next
  case (Cons s ss)
  have upt: "[i..<i + length (s # ss)] = i # [Suc i..<Suc i + length ss]"
    by (simp add: upt_conv_Cons del: upt_Suc)
  from Cons.prems obtain st' r evs0 ss0 where
    "Write s (sstate s) em = Returned st' r" and
    rest: "fanout (Suc i) ss em = (evs0, Some ss0)" and
    evs: "evs = SurfacerWrite i em # evs0"
    by (auto split: write_result.splits prod.splits option.splits)
  from Cons.IH [OF rest] evs show ?case
    unfolding upt by simp
qed

lemma dispatch_one_sink_ids:
  "dispatch_one String d em = (evs, r) \<Longrightarrow> sink_ids evs = [seq_id d]"
  by (auto simp: dispatch_one_def Let_def  split: prod.splits option.splits
      dest: fanout_sink_ids)

lemma dispatch_one_sink_lines:
  "dispatch_one String d em = (evs, r) \<Longrightarrow>
   sink_lines evs = [sprintf_line (GetOutputPrefix (c (prober d))) (seq_id d) (String em)]"
  by (auto simp: dispatch_one_def Let_def  split: prod.splits option.splits
      dest: fanout_sink_lines)

lemma dispatch_one_Some:
  "dispatch_one String d em = (evs, Some d') \<Longrightarrow>
   seq_id d' = seq_id d + 1 \<and> c (prober d') = c (prober d) \<and>
   map Write (surfacers (prober d')) = map Write (surfacers (prober d)) \<and>
   Probes (prober d') = Probes (prober d) \<and> rtcReporter (prober d') = rtcReporter (prober d)"
  by (auto simp: dispatch_one_def Let_def  split: prod.splits option.splits
      dest: fanout_Some_Write)

lemma dispatch_Cons_cases:
  assumes "dispatch String d (em # ems) = (evs, r)"
  obtains (stops) evs1 where "dispatch_one String d em = (evs1, None)" "evs = evs1" "r = None"
  | (go_on) evs1 d1 evs2 where "dispatch_one String d em = (evs1, Some d1)"
      "dispatch String d1 ems = (evs2, r)" "evs = evs1 @ evs2"
  using assms by (auto split: prod.splits option.splits)

lemma dispatch_sink_ids:
  "dispatch String d ems = (evs, r) \<Longrightarrow>
   sink_ids evs = map (\<lambda>k. seq_id d + of_nat k) [0..<length (sink_ids evs)]"
proof (induction ems arbitrary: d evs r)
  case Nil
  then show ?case by simp
next
  case (Cons em ems)
  from Cons.prems show ?case
  proof (cases rule: dispatch_Cons_cases)
    case (stops evs1)
    then show ?thesis by (simp add: dispatch_one_sink_ids)
  next
    case (go_on evs1 d1 evs2)
    have one: "sink_ids evs1 = [seq_id d]"
      using go_on(1) by (rule dispatch_one_sink_ids)
    have next_id: "seq_id d1 = seq_id d + 1"
      using dispatch_one_Some [OF go_on(1)] by simp
    have "sink_ids evs2 = map (\<lambda>k. seq_id d1 + of_nat k) [0..<length (sink_ids evs2)]"
      using go_on(2) by (rule Cons.IH)
    then have "sink_ids evs2 = map (\<lambda>k. seq_id d + of_nat (Suc k)) [0..<length (sink_ids evs2)]"
      by (simp add: next_id ac_simps)
    then show ?thesis
      using one go_on(3) by (simp add: sink_ids_append map_upt_Suc del: upt_Suc)
  qed
qed

lemma dispatch_count:
  "dispatch String d ems = (evs, r) \<Longrightarrow>
   length (sink_ids evs) \<le> length ems \<and> length (sink_lines evs) = length (sink_ids evs)"
proof (induction ems arbitrary: d evs r)
  case Nil
  then show ?case by simp
next
  case (Cons em ems)
  from Cons.prems show ?case
  proof (cases rule: dispatch_Cons_cases)
    case (stops evs1)
    then show ?thesis by (simp add: dispatch_one_sink_ids dispatch_one_sink_lines)
  next
    case (go_on evs1 d1 evs2)
    from Cons.IH [OF go_on(2)] go_on(1,3) show ?thesis
      by (simp add: sink_ids_append sink_lines_append dispatch_one_sink_ids
          dispatch_one_sink_lines)
  qed
qed

lemma dispatch_Some:
  "dispatch String d ems = (evs, Some d') \<Longrightarrow>
   length (sink_ids evs) = length ems \<and> seq_id d' = seq_id d + of_nat (length ems) \<and>
   c (prober d') = c (prober d) \<and>
   map Write (surfacers (prober d')) = map Write (surfacers (prober d))"
proof (induction ems arbitrary: d evs)
  case Nil
  then show ?case by simp
next
  case (Cons em ems)
  from Cons.prems show ?case
  proof (cases rule: dispatch_Cons_cases)
    case (stops evs1)
    then show ?thesis by simp
  next
    case (go_on evs1 d1 evs2)
    from Cons.IH [OF go_on(2)] dispatch_one_Some [OF go_on(1)] go_on(3)
      dispatch_one_sink_ids [OF go_on(1)]
    show ?thesis
      by (simp add: sink_ids_append ac_simps)
  qed
qed


lemma sint_add_of_nat:
  fixes w :: int64
  assumes "sint w + int k < 2 ^ 63"
  shows "sint (w + of_nat k) = sint w + int k"
proof -
  have "w + of_nat k = word_of_int (sint w + int k)"
    by simp
  then have "sint (w + of_nat k) = signed_take_bit 63 (sint w + int k)"
    by (simp only: sint_sbintrunc') simp
  moreover have "- (2 ^ 63) \<le> sint w"
    using sint_ge [of w] by simp
  ultimately show ?thesis
    using assms by (simp add: signed_take_bit_int_eq_self)
qed

lemma always_returns_alt:
  "always_returns xs = (\<forall>w\<in>set (map Write xs). \<forall>st em. returns (w st em))"
  by (auto simp: always_returns_def)

lemma always_returns_map_Write:
  "map Write ss' = map Write ss \<Longrightarrow> always_returns ss' = always_returns ss"
  by (simp only: always_returns_alt)

lemma fanout_all_return:
  "\<forall>s\<in>set ss. returns (Write s (sstate s) em) \<Longrightarrow>
   \<exists>ss'. fanout i ss em = (map (\<lambda>k. SurfacerWrite k em) [i..<i + length ss], Some ss')"
proof (induction ss arbitrary: i)
  case Nil
  then show ?case by simp
next
  case (Cons s ss)
  have upt: "[i..<i + length (s # ss)] = i # [Suc i..<Suc i + length ss]"
    by (simp add: upt_conv_Cons del: upt_Suc)
  from Cons.prems obtain st' r where w: "Write s (sstate s) em = Returned st' r"
    by (cases "Write s (sstate s) em") auto
  from Cons.prems have "\<forall>s\<in>set ss. returns (Write s (sstate s) em)" by simp
  from Cons.IH [OF this, of "Suc i"] obtain ss' where
    "fanout (Suc i) ss em = (map (\<lambda>k. SurfacerWrite k em) [Suc i..<Suc i + length ss], Some ss')"
    by blast
  with w show ?case unfolding upt by simp
qed

lemma fanout_first_stop:
  "j < length ss \<Longrightarrow> \<not> returns (Write (ss ! j) (sstate (ss ! j)) em) \<Longrightarrow>
   \<forall>k<j. returns (Write (ss ! k) (sstate (ss ! k)) em) \<Longrightarrow>
   fanout i ss em = (map (\<lambda>k. SurfacerWrite k em) [i..<i + Suc j], None)"
proof (induction ss arbitrary: i j)
  case Nil
  then show ?case by simp
next
  case (Cons s ss)
  show ?case
  proof (cases j)
    case 0
    with Cons.prems show ?thesis
      by (cases "Write s (sstate s) em") simp_all
  next
    case (Suc j')
    from Cons.prems(3) Suc obtain st' r where w: "Write s (sstate s) em = Returned st' r"
      by (cases "Write s (sstate s) em") auto
    have "\<forall>k<j'. returns (Write (ss ! k) (sstate (ss ! k)) em)"
      using Cons.prems(3) Suc by auto
    with Cons.prems(1,2) Suc
    have "fanout (Suc i) ss em = (map (\<lambda>k. SurfacerWrite k em) [Suc i..<Suc i + Suc j'], None)"
      by (intro Cons.IH) auto
    moreover have "[i..<i + Suc j] = i # [Suc i..<Suc i + Suc j']"
      using Suc by (simp add: upt_conv_Cons del: upt_Suc)
    ultimately show ?thesis using w by (simp del: upt_Suc)
  qed
qed

lemma logged_append: "logged (xs @ ys) = logged xs @ logged ys"
  by (induction xs rule: logged.induct) simp_all

lemma fanout_logged: "fanout i ss em = (evs, r) \<Longrightarrow> logged evs = []"
  by (induction ss arbitrary: i evs r)
     (auto split: write_result.splits prod.splits option.splits)

lemma dispatch_one_logged: "dispatch_one String d em = (evs, r) \<Longrightarrow> logged evs = []"
  by (auto simp: dispatch_one_def Let_def split: prod.splits option.splits
      dest: fanout_logged)

lemma dispatch_logged: "dispatch String d ems = (evs, r) \<Longrightarrow> logged evs = []"
proof (induction ems arbitrary: d evs r)
  case Nil
  then show ?case by simp
next
  case (Cons em ems)
  from Cons.prems show ?case
  proof (cases rule: dispatch_Cons_cases)
    case (stops evs1)
    then show ?thesis by (simp add: dispatch_one_logged)
  next
    case (go_on evs1 d1 evs2)
    from Cons.IH [OF go_on(2)] dispatch_one_logged [OF go_on(1)] go_on(3)
    show ?thesis by (simp add: logged_append)
  qed
qed

lemma dispatch_one_events:
  "dispatch_one String d em =
     (Fprintf (seq_id d) (sprintf_line (GetOutputPrefix (c (prober d))) (seq_id d) (String em))
        (snd (fwrite (outf (prober d)) (fstate (outf (prober d)))
           (sprintf_line (GetOutputPrefix (c (prober d))) (seq_id d) (String em))))
      # fst (fanout 0 (surfacers (prober d)) em),
      map_option (\<lambda>ss'. \<lparr> seq_id = seq_id d + 1,
          prober = (prober d) \<lparr> outf := File (fst (fwrite (outf (prober d)) (fstate (outf (prober d)))
               (sprintf_line (GetOutputPrefix (c (prober d))) (seq_id d) (String em))))
               (fwrite (outf (prober d))), surfacers := ss' \<rparr> \<rparr>)
        (snd (fanout 0 (surfacers (prober d)) em)))"
  by (simp add: dispatch_one_def Let_def split: prod.splits option.splits)

lemma dispatch_one_Some_events:
  assumes "dispatch_one String d em = (evs, Some d')"
  shows "\<exists>err. evs =
     Fprintf (seq_id d) (sprintf_line (GetOutputPrefix (c (prober d))) (seq_id d) (String em)) err
       # map (\<lambda>i. SurfacerWrite i em) [0..<length (surfacers (prober d))]"
proof -
  from assms obtain ss' where "snd (fanout 0 (surfacers (prober d)) em) = Some ss'"
    by (auto simp: dispatch_one_events)
  then have "fanout 0 (surfacers (prober d)) em = (fst (fanout 0 (surfacers (prober d)) em), Some ss')"
    by (metis prod.collapse)
  from fanout_Some_events [OF this] assms show ?thesis
    by (auto simp: dispatch_one_events)
qed

lemma dispatch_always_returns:
  "always_returns (surfacers (prober d)) \<Longrightarrow> \<exists>evs d'. dispatch String d ems = (evs, Some d')"
proof (induction ems arbitrary: d)
  case Nil
  then show ?case by simp
next
  case (Cons em ems)
  from Cons.prems have "\<forall>s\<in>set (surfacers (prober d)). returns (Write s (sstate s) em)"
    by (simp add: always_returns_def)
  from fanout_all_return [OF this, of 0] obtain evs0 ss' where
    f: "fanout 0 (surfacers (prober d)) em = (evs0, Some ss')"
    by blast
  have "\<exists>evs1 d1. dispatch_one String d em = (evs1, Some d1)"
    unfolding dispatch_one_events f by simp
  then obtain evs1 d1 where one: "dispatch_one String d em = (evs1, Some d1)"
    by blast
  from dispatch_one_Some [OF one]
  have "map Write (surfacers (prober d1)) = map Write (surfacers (prober d))"
    by simp
  from always_returns_map_Write [OF this] Cons.prems have "always_returns (surfacers (prober d1))"
    by simp
  from Cons.IH [OF this] obtain evs2 d2 where two: "dispatch String d1 ems = (evs2, Some d2)"
    by blast
  show ?case
    using one two by simp
qed

lemma dispatch_first_stop:
  assumes "j < length (surfacers (prober d))"
    and "\<not> returns (Write (surfacers (prober d) ! j) (sstate (surfacers (prober d) ! j)) em)"
    and "\<forall>k<j. returns (Write (surfacers (prober d) ! k) (sstate (surfacers (prober d) ! k)) em)"
  shows "\<exists>err. dispatch String d (em # rest) =
     (Fprintf (seq_id d) (sprintf_line (GetOutputPrefix (c (prober d))) (seq_id d) (String em)) err
        # map (\<lambda>k. SurfacerWrite k em) [0..<Suc j], None)"
  using fanout_first_stop [OF assms, of 0]
  by (simp add: dispatch_one_events del: upt_Suc)

subsection \<open>The pipeline and the dispatcher\<close>

lemma dispatch_snoc:
  "dispatch String d (ems @ [em]) =
     (case dispatch String d ems of
        (evs, None) \<Rightarrow> (evs, None)
      | (evs, Some d') \<Rightarrow> (case dispatch_one String d' em of (evs', r) \<Rightarrow> (evs @ evs', r)))"
  by (induction ems arbitrary: d) (simp_all split: prod.splits option.splits)

lemma send_Sent:
  "send ch v = Sent ch' \<longleftrightarrow>
     length (chan_buf ch) < chan_cap ch \<and> ch' = ch \<lparr> chan_buf := chan_buf ch @ [v] \<rparr>"
  by (auto simp: send_def)

lemma send_SendBlocked: "send ch v = SendBlocked \<longleftrightarrow> chan_cap ch \<le> length (chan_buf ch)"
  by (auto simp: send_def)

lemma recv_Received:
  "recv ch = Received v ch' \<longleftrightarrow>
     (\<exists>vs. chan_buf ch = v # vs \<and> ch' = ch \<lparr> chan_buf := vs \<rparr>)"
  by (auto simp: recv_def split: list.splits)

lemma reachable_started: "reachable String now pr (started now pr)"
  by (simp add: reachable_def)

lemma reachable_step:
  "reachable String now pr \<sigma> \<Longrightarrow> step String \<sigma> \<sigma>' \<Longrightarrow> reachable String now pr \<sigma>'"
  by (simp add: reachable_def)

lemma reachable_invariant:
  assumes "reachable String now pr \<sigma>"
  shows "chan_cap (dataChan \<sigma>) = 1000 \<and> length (chan_buf (dataChan \<sigma>)) \<le> 1000 \<and>
    (\<exists>ems. Dispatcher String now pr ems = (emitted \<sigma>, loop \<sigma>) \<and>
           sent \<sigma> = ems @ chan_buf (dataChan \<sigma>))"
  using assms unfolding reachable_def
proof (induction rule: rtranclp_induct)
  case base
  show ?case by (simp add: started_def make_chan_def Dispatcher_def)
next
  case (step \<sigma> \<sigma>')
  then obtain ems where cap: "chan_cap (dataChan \<sigma>) = 1000"
    and len: "length (chan_buf (dataChan \<sigma>)) \<le> 1000"
    and run: "Dispatcher String now pr ems = (emitted \<sigma>, loop \<sigma>)"
    and hist: "sent \<sigma> = ems @ chan_buf (dataChan \<sigma>)"
    by blast
  from step.hyps(2) show ?case
  proof cases
    case (producer_send em ch')
    with cap len run hist show ?thesis
      by (auto simp: send_Sent)
  next
    case (dispatcher_turn d em ch' evs r)
    from dispatcher_turn(3) obtain vs where buf: "chan_buf (dataChan \<sigma>) = em # vs"
      and ch': "ch' = (dataChan \<sigma>) \<lparr> chan_buf := vs \<rparr>"
      by (auto simp: recv_Received)
    have "Dispatcher String now pr (ems @ [em]) = (emitted \<sigma> @ evs, r)"
      using run dispatcher_turn(2,4) by (simp add: Dispatcher_def dispatch_snoc)
    moreover have "sent \<sigma> = (ems @ [em]) @ vs"
      using hist buf by simp
    ultimately show ?thesis
      using cap len buf ch' dispatcher_turn(1) by (auto simp del: append_assoc)
  qed
qed

lemma reachable_run:
  "Dispatcher String now pr ems = (evs, Some d) \<Longrightarrow>
   \<exists>\<sigma>. reachable String now pr \<sigma> \<and> emitted \<sigma> = evs \<and> loop \<sigma> = Some d \<and>
        sent \<sigma> = ems \<and> chan_buf (dataChan \<sigma>) = []"
proof (induction ems arbitrary: evs d rule: rev_induct)
  case Nil
  then have "emitted (started now pr) = evs \<and>
      loop (started now pr) = Some d \<and> sent (started now pr) = [] \<and>
      chan_buf (dataChan (started now pr)) = []"
    by (auto simp: Dispatcher_def started_def make_chan_def)
  with reachable_started [of String now pr] show ?case by blast
next
  case (snoc em ems)
  from snoc.prems obtain evs0 d0 evs1 where
    run0: "Dispatcher String now pr ems = (evs0, Some d0)" and
    turn: "dispatch_one String d0 em = (evs1, Some d)" and
    evs: "evs = evs0 @ evs1"
    by (auto simp: Dispatcher_def dispatch_snoc split: prod.splits option.splits)
  from snoc.IH [OF run0] obtain \<sigma>0 where
    r0: "reachable String now pr \<sigma>0" and e0: "emitted \<sigma>0 = evs0" and
    l0: "loop \<sigma>0 = Some d0" and s0: "sent \<sigma>0 = ems" and b0: "chan_buf (dataChan \<sigma>0) = []"
    by blast
  have cap: "chan_cap (dataChan \<sigma>0) = 1000"
    using reachable_invariant [OF r0] by simp
  define ch1 where "ch1 = (dataChan \<sigma>0) \<lparr> chan_buf := [em] \<rparr>"
  define \<sigma>1 where "\<sigma>1 = \<sigma>0 \<lparr> dataChan := ch1, sent := sent \<sigma>0 @ [em] \<rparr>"
  define \<sigma>2 where "\<sigma>2 = \<sigma>1 \<lparr> dataChan := ch1 \<lparr> chan_buf := [] \<rparr>, loop := Some d,
      emitted := emitted \<sigma>1 @ evs1 \<rparr>"
  have "send (dataChan \<sigma>0) em = Sent ch1"
    by (simp add: send_Sent cap b0 ch1_def)
  then have "step String \<sigma>0 \<sigma>1"
    unfolding \<sigma>1_def by (rule step.producer_send)
  with r0 have r1: "reachable String now pr \<sigma>1"
    by (rule reachable_step)
  have "loop \<sigma>1 = Some d0" "recv (dataChan \<sigma>1) = Received em (ch1 \<lparr> chan_buf := [] \<rparr>)"
    by (simp_all add: \<sigma>1_def l0 recv_Received ch1_def)
  then have "step String \<sigma>1 \<sigma>2"
    unfolding \<sigma>2_def using turn by (rule step.dispatcher_turn)
  with r1 have "reachable String now pr \<sigma>2"
    by (rule reachable_step)
  moreover have "emitted \<sigma>2 = evs" "loop \<sigma>2 = Some d" "sent \<sigma>2 = ems @ [em]"
    "chan_buf (dataChan \<sigma>2) = []"
    by (simp_all add: \<sigma>2_def \<sigma>1_def e0 evs s0)
  ultimately show ?case by blast
qed

lemma sample_run:
  "Dispatcher sample_String now sample_prober [''p1 value=1'', ''p1 value=2''] =
     ([Fprintf now (sprintf_line ''prefix'' now ''p1 value=1'') None,
       SurfacerWrite 0 ''p1 value=1'',
       Fprintf (now + 1) (sprintf_line ''prefix'' (now + 1) ''p1 value=2'') None,
       SurfacerWrite 0 ''p1 value=2''],
      Some \<lparr> seq_id = now + 1 + 1,
             prober = sample_prober
               \<lparr> outf := File [sprintf_line ''prefix'' now ''p1 value=1'',
                                sprintf_line ''prefix'' (now + 1) ''p1 value=2'']
                           (fwrite recording_file),
                 surfacers := [Surfacer [''p1 value=1'', ''p1 value=2'']
                                 (Write recording_surfacer)] \<rparr> \<rparr>)"
  by (simp add: Dispatcher_def dispatch_one_def sample_prober_def sample_config_def
      recording_file_def recording_surfacer_def sample_String_def Let_def)

lemma reachable_after_records:
  assumes "snd (Dispatcher String now pr ems) \<noteq> None"
  shows "reachable String now pr (after_records String now pr ems)"
proof -
  from assms obtain d where d: "snd (Dispatcher String now pr ems) = Some d"
    by blast
  then have "Dispatcher String now pr ems = (fst (Dispatcher String now pr ems), Some d)"
    by (metis prod.collapse)
  from reachable_run [OF this] obtain \<sigma> where r: "reachable String now pr \<sigma>" and
    f: "emitted \<sigma> = fst (Dispatcher String now pr ems)"
       "loop \<sigma> = snd (Dispatcher String now pr ems)" "sent \<sigma> = ems"
       "chan_buf (dataChan \<sigma>) = []"
    unfolding d by blast
  from reachable_invariant [OF r] have "chan_cap (dataChan \<sigma>) = 1000"
    by simp
  with f have "dataChan \<sigma> = make_chan 1000"
    by (simp add: make_chan_def)
  with f have "\<sigma> = after_records String now pr ems"
    by (simp add: after_records_def)
  with r show ?thesis by simp
qed

subsection \<open>Sequence identifiers\<close>

lemmas sample_defs =
  sample_prober_def sample_config_def recording_file_def failing_file_def
  recording_surfacer_def failing_surfacer_def panicking_surfacer_def sample_String_def
  fanout_prober_def panicking_prober_def failing_sink_prober_def stuck_prober_def flaky_prober_def flaky_file_def

lemma subseq_written_ids: "subseq (written_ids evs) (sink_ids evs)"
  by (induction evs rule: written_ids.induct) auto

lemma written_ids_all:
  "\<forall>i l e. Fprintf i l (Some e) \<notin> set evs \<Longrightarrow> written_ids evs = sink_ids evs"
  by (induction evs rule: written_ids.induct) auto

lemma not_written_failed:
  "i \<in> set (sink_ids evs) \<Longrightarrow> i \<notin> set (written_ids evs) \<Longrightarrow>
   \<exists>l e. Fprintf i l (Some e) \<in> set evs"
  by (induction evs rule: written_ids.induct) auto

lemma sorted_wrt_subseq: "subseq xs ys \<Longrightarrow> sorted_wrt P ys \<Longrightarrow> sorted_wrt P xs"
proof (induction rule: list_emb.induct)
  case (list_emb_Nil ys)
  then show ?case by simp
next
  case (list_emb_Cons xs ys y)
  then show ?case by simp
next
  case (list_emb_Cons2 x y xs ys)
  from list_emb_Cons2(2) have "set xs \<subseteq> set ys"
    by (auto dest: list_emb_set)
  with list_emb_Cons2 show ?case by auto
qed

lemma sorted_wrt_consecutive: "sorted_wrt (<) (map (\<lambda>k. a + int k) [0..<n])"
  by (simp add: sorted_wrt_map sorted_wrt_iff_nth_less)

lemma flaky_run:
  "Dispatcher sample_String 1000 flaky_prober [''p1 value=1'', ''p1 value=2'', ''p1 value=3''] =
     ([Fprintf 1000 (''prefix 1000 p1 value=1'' @ [CHR 0x0A]) None,
       SurfacerWrite 0 ''p1 value=1'',
       Fprintf 1001 (''prefix 1001 p1 value=2'' @ [CHR 0x0A]) (Some (Error ''input/output error'')),
       SurfacerWrite 0 ''p1 value=2'',
       Fprintf 1002 (''prefix 1002 p1 value=3'' @ [CHR 0x0A]) None,
       SurfacerWrite 0 ''p1 value=3''],
      Some \<lparr> seq_id = 1003,
             prober = flaky_prober
               \<lparr> outf := File (3, [''prefix 1000 p1 value=1'' @ [CHR 0x0A],
                                     ''prefix 1002 p1 value=3'' @ [CHR 0x0A]])
                           (fwrite flaky_file),
                 surfacers := [Surfacer [''p1 value=1'', ''p1 value=2'', ''p1 value=3'']
                                 (Write recording_surfacer)] \<rparr> \<rparr>)"
  by (simp add: Dispatcher_def dispatch_one_def sample_defs
      Let_def sprintf_line_def fmt_d_def digits.simps)

text \<open>
  Claim C1 as written fails for the records written to the output file: the identifier
  is incremented whether or not the write succeeded.  With a file whose second write fails,
  three records carry the identifiers 1000, 1001 and 1002, and the file holds the lines of
  1000 and 1002 only: a gap.
\<close>

theorem sequence_ids_gap_counterexample:
  "reachable sample_String 1000 flaky_prober
     (after_records sample_String 1000 flaky_prober
        [''p1 value=1'', ''p1 value=2'', ''p1 value=3'']) \<and>
   sink_ids (emitted (after_records sample_String 1000 flaky_prober
        [''p1 value=1'', ''p1 value=2'', ''p1 value=3'']))
     = [1000, 1001, 1002] \<and>
   written_ids (emitted (after_records sample_String 1000 flaky_prober
        [''p1 value=1'', ''p1 value=2'', ''p1 value=3'']))
     = [1000, 1002] \<and>
   fstate (outf (prober (the (loop (after_records sample_String 1000 flaky_prober
        [''p1 value=1'', ''p1 value=2'', ''p1 value=3''])))))
     = (3, [''prefix 1000 p1 value=1'' @ [CHR 0x0A], ''prefix 1002 p1 value=3'' @ [CHR 0x0A]])"
proof -
  have "reachable sample_String 1000 flaky_prober
     (after_records sample_String 1000 flaky_prober
        [''p1 value=1'', ''p1 value=2'', ''p1 value=3''])"
    by (rule reachable_after_records) (simp add: flaky_run)
  then show ?thesis
    by (simp add: after_records_def flaky_run)
qed

text \<open>
  Claim C1, as the code has it.  The dispatcher sets the identifier once, from the clock
  value \<open>now\<close>, before the first record, and increments it by 1 for every record it
  handles, whether or not the write of the record's line succeeds.  In every state the
  pipeline reaches after \<^verbatim>\<open>Start\<close>, whichever producers sent and in whatever
  order, and as long as the identifiers stay within \<^verbatim>\<open>int64\<close>: the \<open>k\<close>-th
  line handed to the file carries \<open>now + k\<close>, and no more lines than records sent; the
  identifiers of the lines that were written are among these in the same order, strictly
  increasing and without repeats; an identifier is missing from them only where the write
  of its line failed, so there is no gap when no write fails.
\<close>

theorem sequence_ids_consecutive:
  assumes "reachable String now pr \<sigma>"
    and "sint now + int (length (sink_ids (emitted \<sigma>))) \<le> 2 ^ 63"
  shows "map sint (sink_ids (emitted \<sigma>)) =
           map (\<lambda>k. sint now + int k) [0..<length (sink_ids (emitted \<sigma>))] \<and>
         length (sink_ids (emitted \<sigma>)) \<le> length (sent \<sigma>) \<and>
         subseq (written_ids (emitted \<sigma>)) (sink_ids (emitted \<sigma>)) \<and>
         sorted_wrt (<) (map sint (written_ids (emitted \<sigma>))) \<and>
         distinct (written_ids (emitted \<sigma>)) \<and>
         (\<forall>i\<in>set (sink_ids (emitted \<sigma>)).
            i \<in> set (written_ids (emitted \<sigma>)) \<or>
            (\<exists>l e. Fprintf i l (Some e) \<in> set (emitted \<sigma>))) \<and>
         ((\<forall>i l e. Fprintf i l (Some e) \<notin> set (emitted \<sigma>)) \<longrightarrow>
            written_ids (emitted \<sigma>) = sink_ids (emitted \<sigma>))"
proof -
  define ids where "ids = sink_ids (emitted \<sigma>)"
  define n where "n = length ids"
  from reachable_invariant [OF assms(1)] obtain ems where
    run: "dispatch String \<lparr> seq_id = now, prober = pr \<rparr> ems = (emitted \<sigma>, loop \<sigma>)" and
    hist: "sent \<sigma> = ems @ chan_buf (dataChan \<sigma>)"
    by (auto simp: Dispatcher_def)
  have ids: "ids = map (\<lambda>k. now + of_nat k) [0..<n]"
    using dispatch_sink_ids [OF run] by (simp add: ids_def n_def)
  have le: "n \<le> length (sent \<sigma>)"
    using dispatch_count [OF run] hist by (simp add: ids_def n_def)
  have bound: "sint now + int n \<le> 2 ^ 63"
    using assms(2) by (simp add: ids_def n_def)
  have "sint (now + of_nat k) = sint now + int k" if "k < n" for k
  proof -
    from that bound have "sint now + int k < 2 ^ 63" by simp
    then show ?thesis by (rule sint_add_of_nat)
  qed
  then have sints: "map sint ids = map (\<lambda>k. sint now + int k) [0..<n]"
    by (subst ids) simp
  have sub: "subseq (written_ids (emitted \<sigma>)) ids"
    unfolding ids_def by (rule subseq_written_ids)
  have "sorted_wrt (<) (map sint ids)"
    unfolding sints by (rule sorted_wrt_consecutive)
  moreover have "subseq (map sint (written_ids (emitted \<sigma>))) (map sint ids)"
    using sub by (rule subseq_map)
  ultimately have sorted: "sorted_wrt (<) (map sint (written_ids (emitted \<sigma>)))"
    by (rule sorted_wrt_subseq [rotated])
  then have "distinct (map sint (written_ids (emitted \<sigma>)))"
    by (simp add: strict_sorted_iff)
  then have dist: "distinct (written_ids (emitted \<sigma>))"
    by (simp add: distinct_map)
  have gaps: "\<forall>i\<in>set ids. i \<in> set (written_ids (emitted \<sigma>)) \<or>
      (\<exists>l e. Fprintf i l (Some e) \<in> set (emitted \<sigma>))"
    unfolding ids_def using not_written_failed by blast
  have "written_ids (emitted \<sigma>) = ids"
    if "\<forall>i l e. Fprintf i l (Some e) \<notin> set (emitted \<sigma>)"
    unfolding ids_def using that by (rule written_ids_all)
  with sints le sub sorted dist gaps show ?thesis
    unfolding n_def ids_def by blast
qed

theorem sequence_ids_consecutive_witness:
  "reachable sample_String 1000 flaky_prober
     (after_records sample_String 1000 flaky_prober
        [''p1 value=1'', ''p1 value=2'', ''p1 value=3'']) \<and>
   sint (1000 :: int64) + 3 \<le> 2 ^ 63 \<and>
   map sint (sink_ids (emitted (after_records sample_String 1000 flaky_prober
        [''p1 value=1'', ''p1 value=2'', ''p1 value=3''])))
     = [1000, 1001, 1002] \<and>
   written_ids (emitted (after_records sample_String 1000 flaky_prober
        [''p1 value=1'', ''p1 value=2'', ''p1 value=3'']))
     = [1000, 1002] \<and>
   written_ids (emitted (after_records sample_String 1000 sample_prober
        [''p1 value=1'', ''p1 value=2'']))
     = sink_ids (emitted (after_records sample_String 1000 sample_prober
        [''p1 value=1'', ''p1 value=2'']))"
proof -
  let ?\<sigma> = "after_records sample_String 1000 flaky_prober
        [''p1 value=1'', ''p1 value=2'', ''p1 value=3'']"
  have r: "reachable sample_String 1000 flaky_prober ?\<sigma>"
    by (rule reachable_after_records) (simp add: flaky_run)
  have e: "sink_ids (emitted ?\<sigma>) = [1000, 1001, 1002]"
    by (simp add: after_records_def flaky_run)
  then have b: "sint (1000 :: int64) + int (length (sink_ids (emitted ?\<sigma>))) \<le> 2 ^ 63"
    by simp
  from sequence_ids_consecutive [OF r b] e
  have "map sint (sink_ids (emitted ?\<sigma>)) = [1000, 1001, 1002]"
    by (simp add: upt_rec)
  moreover have "written_ids (emitted ?\<sigma>) = [1000, 1002]"
    by (simp add: after_records_def flaky_run)
  moreover have "written_ids (emitted (after_records sample_String 1000 sample_prober
        [''p1 value=1'', ''p1 value=2'']))
     = sink_ids (emitted (after_records sample_String 1000 sample_prober
        [''p1 value=1'', ''p1 value=2'']))"
    by (simp add: after_records_def sample_run)
  ultimately show ?thesis using r by simp
qed

subsection \<open>Decimal numerals\<close>








subsection \<open>The format of a line\<close>



subsection \<open>Fan-out to the surfacers\<close>

lemma expected_trace_Nil: "expected_trace String pfx n i0 [] errs = []"
  by (simp add: expected_trace_def)

lemma expected_trace_Cons:
  "expected_trace String pfx n i0 (em # ems) (err # errs) =
     (Fprintf i0 (sprintf_line pfx i0 (String em)) err # map (\<lambda>j. SurfacerWrite j em) [0..<n])
     @ expected_trace String pfx n (i0 + 1) ems errs"
  by (simp add: expected_trace_def map_upt_Suc ac_simps del: upt_Suc)

lemma fanout_prefix:
  "fanout i ss em = (evs, r) \<Longrightarrow>
   prefix evs (map (\<lambda>k. SurfacerWrite k em) [i..<i + length ss])"
proof (induction ss arbitrary: i evs r)
  case Nil
  then show ?case by simp
next
  case (Cons s ss)
  have upt: "[i..<i + length (s # ss)] = i # [Suc i..<Suc i + length ss]"
    by (simp add: upt_conv_Cons del: upt_Suc)
  show ?case
  proof (cases "Write s (sstate s) em")
    case (Returned st' res)
    obtain evs0 r0 where rest: "fanout (Suc i) ss em = (evs0, r0)"
      by (cases "fanout (Suc i) ss em") auto
    with Returned Cons.prems have "evs = SurfacerWrite i em # evs0"
      by (auto split: option.splits)
    with Cons.IH [OF rest] show ?thesis
      unfolding upt by simp
  next
    case Panicked
    with Cons.prems show ?thesis unfolding upt by auto
  next
    case NeverReturns
    with Cons.prems show ?thesis unfolding upt by auto
  qed
qed

lemma dispatch_trace:
  "dispatch String d ems = (evs, r) \<Longrightarrow>
   \<exists>errs. length errs = length ems \<and>
     prefix evs (expected_trace String (GetOutputPrefix (c (prober d)))
        (length (surfacers (prober d))) (seq_id d) ems errs) \<and>
     (r \<noteq> None \<longrightarrow>
        evs = expected_trace String (GetOutputPrefix (c (prober d)))
          (length (surfacers (prober d))) (seq_id d) ems errs)"
proof (induction ems arbitrary: d evs r)
  case Nil
  then show ?case by (simp add: expected_trace_Nil)
next
  case (Cons em ems)
  let ?pfx = "GetOutputPrefix (c (prober d))"
  let ?n = "length (surfacers (prober d))"
  from Cons.prems show ?case
  proof (cases rule: dispatch_Cons_cases)
    case (stops evs1)
    obtain err where evs1: "evs1 = Fprintf (seq_id d) (sprintf_line ?pfx (seq_id d) (String em)) err
        # fst (fanout 0 (surfacers (prober d)) em)"
      using stops(1) by (auto simp: dispatch_one_events)
    have "prefix (fst (fanout 0 (surfacers (prober d)) em))
        (map (\<lambda>k. SurfacerWrite k em) [0..<?n])"
      using fanout_prefix [of 0 "surfacers (prober d)" em] by (metis add_0 prod.collapse)
    then have "prefix evs (expected_trace String ?pfx ?n (seq_id d) (em # ems)
        (err # replicate (length ems) None))"
      unfolding expected_trace_Cons stops(2) evs1 by (simp add: prefix_prefix)
    moreover have "length (err # replicate (length ems) None) = length (em # ems)"
      by simp
    ultimately show ?thesis
      using stops(3) by blast
  next
    case (go_on evs1 d1 evs2)
    from dispatch_one_Some_events [OF go_on(1)] obtain err where evs1:
      "evs1 = Fprintf (seq_id d) (sprintf_line ?pfx (seq_id d) (String em)) err
         # map (\<lambda>i. SurfacerWrite i em) [0..<?n]"
      by blast
    have nxt: "seq_id d1 = seq_id d + 1" "c (prober d1) = c (prober d)"
      "length (surfacers (prober d1)) = ?n"
      using dispatch_one_Some [OF go_on(1)] by (auto dest: map_eq_imp_length_eq)
    from Cons.IH [OF go_on(2)] obtain errs where errs: "length errs = length ems" and
      pre: "prefix evs2 (expected_trace String ?pfx ?n (seq_id d + 1) ems errs)" and
      full: "r \<noteq> None \<longrightarrow> evs2 = expected_trace String ?pfx ?n (seq_id d + 1) ems errs"
      unfolding nxt by blast
    have "prefix evs (expected_trace String ?pfx ?n (seq_id d) (em # ems) (err # errs))"
      unfolding expected_trace_Cons go_on(3) evs1 using pre by simp
    moreover have "r \<noteq> None \<longrightarrow>
        evs = expected_trace String ?pfx ?n (seq_id d) (em # ems) (err # errs)"
      unfolding expected_trace_Cons go_on(3) evs1 using full by simp
    moreover have "length (err # errs) = length (em # ems)"
      using errs by simp
    ultimately show ?thesis by blast
  qed
qed

text \<open>
  Claim C2 as written, for every record, fails when a \<^verbatim>\<open>Write\<close> does not
  return: with three surfacers of which the second never returns, the third surfacer is
  never called with the record.
\<close>

theorem fanout_needs_returning_Write_counterexample:
  "Dispatcher sample_String 1000 stuck_prober [''p1 value=1''] =
     ([Fprintf 1000 (''prefix 1000 p1 value=1'' @ [CHR 0x0A]) None,
       SurfacerWrite 0 ''p1 value=1'', SurfacerWrite 1 ''p1 value=1''], None) \<and>
   SurfacerWrite 2 ''p1 value=1''
     \<notin> set (fst (Dispatcher sample_String 1000 stuck_prober [''p1 value=1'']))"
  by (simp add: Dispatcher_def dispatch_one_def sample_defs stuck_prober_def Let_def
      sprintf_line_def fmt_d_def digits.simps)

text \<open>
  Claim C2, as the code has it.  Whatever the surfacers do, what the dispatcher did for
  the records \<open>ems\<close> is an initial part of what the claim says: record by record in
  the order received, one \<^verbatim>\<open>Fprintf\<close> of the record's line on the output file and
  then one call of \<^verbatim>\<open>Write\<close> with the record itself on each registered surfacer,
  in registration order; so no surfacer gets a record twice or out of order.  It is all of
  it when the dispatcher is still running after these records, and the dispatcher is still
  running whenever every \<^verbatim>\<open>Write\<close> returns: then each record has reached each
  surfacer exactly once.
\<close>

theorem fanout_every_surfacer_once:
  assumes "Dispatcher String now pr ems = (evs, r)"
  shows "(\<exists>errs. length errs = length ems \<and>
            prefix evs (expected_trace String (GetOutputPrefix (c pr)) (length (surfacers pr))
                          now ems errs) \<and>
            (r \<noteq> None \<longrightarrow>
               evs = expected_trace String (GetOutputPrefix (c pr)) (length (surfacers pr))
                       now ems errs)) \<and>
         (always_returns (surfacers pr) \<longrightarrow> r \<noteq> None)"
proof -
  from assms have run: "dispatch String \<lparr> seq_id = now, prober = pr \<rparr> ems = (evs, r)"
    by (simp add: Dispatcher_def)
  have "r \<noteq> None" if "always_returns (surfacers pr)"
  proof -
    from that have "always_returns (surfacers (prober \<lparr> seq_id = now, prober = pr \<rparr>))"
      by simp
    from dispatch_always_returns [OF this, of String ems] run show ?thesis
      by auto
  qed
  with dispatch_trace [OF run] show ?thesis by simp
qed

theorem fanout_every_surfacer_once_witness:
  "always_returns (surfacers fanout_prober) \<and>
   (\<exists>d. Dispatcher sample_String 1000 fanout_prober [''p1 value=1'', ''p1 value=2''] =
      ([Fprintf 1000 (''prefix 1000 p1 value=1'' @ [CHR 0x0A]) None,
        SurfacerWrite 0 ''p1 value=1'', SurfacerWrite 1 ''p1 value=1'',
        Fprintf 1001 (''prefix 1001 p1 value=2'' @ [CHR 0x0A]) None,
        SurfacerWrite 0 ''p1 value=2'', SurfacerWrite 1 ''p1 value=2''], Some d)) \<and>
   expected_trace sample_String ''prefix'' 2 1000 [''p1 value=1'', ''p1 value=2''] [None, None] =
      [Fprintf 1000 (''prefix 1000 p1 value=1'' @ [CHR 0x0A]) None,
        SurfacerWrite 0 ''p1 value=1'', SurfacerWrite 1 ''p1 value=1'',
        Fprintf 1001 (''prefix 1001 p1 value=2'' @ [CHR 0x0A]) None,
        SurfacerWrite 0 ''p1 value=2'', SurfacerWrite 1 ''p1 value=2'']"
proof -
  have ar: "always_returns (surfacers fanout_prober)"
    by (simp add: always_returns_def sample_defs)
  have run: "Dispatcher sample_String 1000 fanout_prober [''p1 value=1'', ''p1 value=2''] =
      (fst (Dispatcher sample_String 1000 fanout_prober [''p1 value=1'', ''p1 value=2'']),
       snd (Dispatcher sample_String 1000 fanout_prober [''p1 value=1'', ''p1 value=2'']))"
    by simp
  from fanout_every_surfacer_once [OF run] ar
  have "snd (Dispatcher sample_String 1000 fanout_prober [''p1 value=1'', ''p1 value=2'']) \<noteq> None"
    by blast
  moreover have "fst (Dispatcher sample_String 1000 fanout_prober [''p1 value=1'', ''p1 value=2''])
    = [Fprintf 1000 (''prefix 1000 p1 value=1'' @ [CHR 0x0A]) None,
        SurfacerWrite 0 ''p1 value=1'', SurfacerWrite 1 ''p1 value=1'',
        Fprintf 1001 (''prefix 1001 p1 value=2'' @ [CHR 0x0A]) None,
        SurfacerWrite 0 ''p1 value=2'', SurfacerWrite 1 ''p1 value=2'']"
    by (simp add: Dispatcher_def dispatch_one_def sample_defs Let_def
        sprintf_line_def fmt_d_def digits.simps)
  moreover have "expected_trace sample_String ''prefix'' 2 1000
      [''p1 value=1'', ''p1 value=2''] [None, None] =
      [Fprintf 1000 (''prefix 1000 p1 value=1'' @ [CHR 0x0A]) None,
        SurfacerWrite 0 ''p1 value=1'', SurfacerWrite 1 ''p1 value=1'',
        Fprintf 1001 (''prefix 1001 p1 value=2'' @ [CHR 0x0A]) None,
        SurfacerWrite 0 ''p1 value=2'', SurfacerWrite 1 ''p1 value=2'']"
    by (simp add: expected_trace_def sample_defs sprintf_line_def fmt_d_def digits.simps
        upt_rec)
  ultimately show ?thesis
    using ar by (metis prod.collapse not_None_eq)
qed

text \<open>
  Claim C4 as written fails for a panic: with two surfacers of which the first panics,
  the second surfacer is never called with the record, and the second record gets no line
  and no call at all.
\<close>

theorem surfacer_panic_not_isolated_counterexample:
  "Dispatcher sample_String 1000 panicking_prober [''p1 value=1'', ''p1 value=2''] =
     ([Fprintf 1000 (''prefix 1000 p1 value=1'' @ [CHR 0x0A]) None,
       SurfacerWrite 0 ''p1 value=1''], None)"
  by (simp add: Dispatcher_def dispatch_one_def sample_defs Let_def sprintf_line_def fmt_d_def
      digits.simps)

text \<open>
  Claim C4, as the code has it.  A \<^verbatim>\<open>Write\<close> that returns, whether or not it
  reports a failure, does not disturb the turn: the line is written, every registered
  surfacer is called once in order, and the loop goes on with the next identifier.  A
  \<^verbatim>\<open>Write\<close> that does not return, because it panics (nothing recovers a panic) or
  because it blocks for ever, ends the dispatching: when the surfacer at index \<open>j\<close> is
  the first whose call does not return, the line of that record has been written and the
  surfacers up to \<open>j\<close> have been called, the surfacers after \<open>j\<close> are not called,
  and no later record is handled.
\<close>

theorem surfacer_failure_isolation:
  "((\<forall>s\<in>set (surfacers (prober d)). returns (Write s (sstate s) em)) \<longrightarrow>
      (\<exists>err d'. dispatch_one String d em =
         (Fprintf (seq_id d) (sprintf_line (GetOutputPrefix (c (prober d))) (seq_id d) (String em)) err
            # map (\<lambda>i. SurfacerWrite i em) [0..<length (surfacers (prober d))],
          Some d') \<and> seq_id d' = seq_id d + 1)) \<and>
   (j < length (surfacers (prober d)) \<and>
    \<not> returns (Write (surfacers (prober d) ! j) (sstate (surfacers (prober d) ! j)) em) \<and>
    (\<forall>k<j. returns (Write (surfacers (prober d) ! k) (sstate (surfacers (prober d) ! k)) em)) \<longrightarrow>
      (\<exists>err. dispatch String d (em # rest) =
         (Fprintf (seq_id d) (sprintf_line (GetOutputPrefix (c (prober d))) (seq_id d) (String em)) err
            # map (\<lambda>k. SurfacerWrite k em) [0..<Suc j],
          None)))"
proof (intro conjI impI)
  assume "\<forall>s\<in>set (surfacers (prober d)). returns (Write s (sstate s) em)"
  from fanout_all_return [OF this, of 0] obtain ss' where
    "fanout 0 (surfacers (prober d)) em =
       (map (\<lambda>k. SurfacerWrite k em) [0..<length (surfacers (prober d))], Some ss')"
    by auto
  then show "\<exists>err d'. dispatch_one String d em =
         (Fprintf (seq_id d) (sprintf_line (GetOutputPrefix (c (prober d))) (seq_id d) (String em)) err
            # map (\<lambda>i. SurfacerWrite i em) [0..<length (surfacers (prober d))],
          Some d') \<and> seq_id d' = seq_id d + 1"
    by (simp add: dispatch_one_events)
next
  assume "j < length (surfacers (prober d)) \<and>
    \<not> returns (Write (surfacers (prober d) ! j) (sstate (surfacers (prober d) ! j)) em) \<and>
    (\<forall>k<j. returns (Write (surfacers (prober d) ! k) (sstate (surfacers (prober d) ! k)) em))"
  then show "\<exists>err. dispatch String d (em # rest) =
         (Fprintf (seq_id d) (sprintf_line (GetOutputPrefix (c (prober d))) (seq_id d) (String em)) err
            # map (\<lambda>k. SurfacerWrite k em) [0..<Suc j],
          None)"
    by (intro dispatch_first_stop) simp_all
qed

theorem surfacer_failure_isolation_witness:
  "Write failing_surfacer (sstate failing_surfacer) ''p1 value=1''
     = Returned [''p1 value=1''] (Some (Error ''backend unreachable'')) \<and>
   (\<exists>d'. dispatch_one sample_String \<lparr> seq_id = 1000, prober = fanout_prober \<rparr> ''p1 value=1'' =
      ([Fprintf 1000 (''prefix 1000 p1 value=1'' @ [CHR 0x0A]) None,
        SurfacerWrite 0 ''p1 value=1'', SurfacerWrite 1 ''p1 value=1''], Some d')) \<and>
   Write (surfacers panicking_prober ! 0) (sstate (surfacers panicking_prober ! 0)) ''p1 value=1''
     = Panicked \<and>
   dispatch sample_String \<lparr> seq_id = 1000, prober = panicking_prober \<rparr>
       [''p1 value=1'', ''p1 value=2''] =
     ([Fprintf 1000 (''prefix 1000 p1 value=1'' @ [CHR 0x0A]) None,
       SurfacerWrite 0 ''p1 value=1''], None)"
  using surfacer_failure_isolation [of "\<lparr> seq_id = 1000, prober = fanout_prober \<rparr>"
      "''p1 value=1''" sample_String 0 "[]"]
    surfacer_failure_isolation [of "\<lparr> seq_id = 1000, prober = panicking_prober \<rparr>"
      "''p1 value=1''" sample_String 0 "[''p1 value=2'']"]
  by (simp add: dispatch_one_def sample_defs Let_def sprintf_line_def fmt_d_def digits.simps)

subsection \<open>A failed write on the output file\<close>

text \<open>
  Claim C5 as written fails in its logging part: on a file whose writes fail, the turn
  consists of the \<^verbatim>\<open>Fprintf\<close> (which returned an error) and the surfacer call,
  and nothing is logged.
\<close>

theorem sink_write_failure_not_logged_counterexample:
  "Dispatcher sample_String 1000 failing_sink_prober [''p1 value=1''] =
     ([Fprintf 1000 (''prefix 1000 p1 value=1'' @ [CHR 0x0A])
         (Some (Error ''no space left on device'')),
       SurfacerWrite 0 ''p1 value=1''],
      Some \<lparr> seq_id = 1001,
             prober = failing_sink_prober
               \<lparr> surfacers := [Surfacer [''p1 value=1''] (Write recording_surfacer)] \<rparr> \<rparr>) \<and>
   logged (fst (Dispatcher sample_String 1000 failing_sink_prober [''p1 value=1''])) = []"
  by (simp add: Dispatcher_def dispatch_one_def sample_defs Let_def sprintf_line_def fmt_d_def
      digits.simps)

text \<open>
  Claim C5, as the code has it.  The results of \<^verbatim>\<open>Fprintf\<close> are discarded: the
  dispatcher never logs anything, and whether a turn ends the loop depends on the
  surfacers alone, not on the write.  With surfacers that do not panic the loop handles
  every record, whatever the file does: after the records \<open>ems\<close> it is running, the
  identifier has advanced by their number, and a line was attempted for each.
\<close>

theorem sink_write_failure_ignored:
  "(Dispatcher String now pr ems = (evs, r) \<longrightarrow> logged evs = []) \<and>
   (snd (dispatch_one String d em) = None \<longleftrightarrow> snd (fanout 0 (surfacers (prober d)) em) = None) \<and>
   (always_returns (surfacers pr) \<longrightarrow>
      (\<exists>evs' d'. Dispatcher String now pr ems = (evs', Some d') \<and>
         seq_id d' = now + of_nat (length ems) \<and> length (sink_lines evs') = length ems))"
proof (intro conjI impI)
  assume "Dispatcher String now pr ems = (evs, r)"
  then show "logged evs = []"
    by (auto simp: Dispatcher_def dest: dispatch_logged)
next
  show "snd (dispatch_one String d em) = None \<longleftrightarrow> snd (fanout 0 (surfacers (prober d)) em) = None"
    by (simp add: dispatch_one_events)
next
  assume "always_returns (surfacers pr)"
  then have "always_returns (surfacers (prober \<lparr> seq_id = now, prober = pr \<rparr>))"
    by simp
  from dispatch_always_returns [OF this, of String ems] obtain evs' d' where
    run: "dispatch String \<lparr> seq_id = now, prober = pr \<rparr> ems = (evs', Some d')"
    by blast
  from dispatch_Some [OF run] dispatch_count [OF run]
  have "seq_id d' = now + of_nat (length ems) \<and> length (sink_lines evs') = length ems"
    by simp
  with run show "\<exists>evs' d'. Dispatcher String now pr ems = (evs', Some d') \<and>
         seq_id d' = now + of_nat (length ems) \<and> length (sink_lines evs') = length ems"
    by (simp add: Dispatcher_def)
qed

theorem sink_write_failure_ignored_witness:
  "always_returns (surfacers failing_sink_prober) \<and>
   snd (fwrite (outf failing_sink_prober) (fstate (outf failing_sink_prober))
          (''prefix 1000 p1 value=1'' @ [CHR 0x0A])) = Some (Error ''no space left on device'') \<and>
   (\<exists>evs' d'. Dispatcher sample_String 1000 failing_sink_prober [''p1 value=1'', ''p1 value=2'']
        = (evs', Some d') \<and> seq_id d' = 1002 \<and> length (sink_lines evs') = 2)"
proof -
  have np: "always_returns (surfacers failing_sink_prober)"
    by (simp add: always_returns_def sample_defs)
  have "snd (fwrite (outf failing_sink_prober) (fstate (outf failing_sink_prober))
          (''prefix 1000 p1 value=1'' @ [CHR 0x0A])) = Some (Error ''no space left on device'')"
    by (simp add: sample_defs)
  with np sink_write_failure_ignored [of sample_String 1000 failing_sink_prober
      "[''p1 value=1'', ''p1 value=2'']" "[]" None
      "\<lparr> seq_id = 1000, prober = failing_sink_prober \<rparr>" "[]"]
  show ?thesis by (simp add: numeral_2_eq_2)
qed

subsection \<open>The channel between producers and dispatcher\<close>

lemma producer_Send_Some:
  "producer_Send ch todo = Some (ch', rest) \<longleftrightarrow>
     (\<exists>r. todo = r # rest \<and> length (chan_buf ch) < chan_cap ch \<and>
          ch' = ch \<lparr> chan_buf := chan_buf ch @ [r] \<rparr>)"
  by (auto simp: producer_Send_def send_def split: list.splits send_result.splits)

lemma mset_concat_update:
  "p < length xss \<Longrightarrow> xss ! p = r # rest \<Longrightarrow>
   mset (concat (xss[p := rest])) + {#r#} = mset (concat xss)"
proof (induction xss arbitrary: p)
  case Nil
  then show ?case by simp
next
  case (Cons xs xss)
  then show ?case by (cases p) auto
qed

lemma plant_invariant:
  assumes "plant_reachable plans s"
  shows "chan_cap (bus s) = 1000 \<and> length (chan_buf (bus s)) \<le> 1000 \<and>
    mset (concat plans) =
      mset (concat (producers s)) + mset (chan_buf (bus s)) + mset (received s) \<and>
    length (producers s) = length plans"
  using assms unfolding plant_reachable_def
proof (induction rule: rtranclp_induct)
  case base
  show ?case by (simp add: plant_start_def make_chan_def)
next
  case (step s s')
  from step.hyps(2) show ?case
  proof cases
    case (Send p ch' rest)
    from Send(3) obtain r where todo: "producers s ! p = r # rest" and
      room: "length (chan_buf (bus s)) < chan_cap (bus s)" and
      ch': "ch' = (bus s) \<lparr> chan_buf := chan_buf (bus s) @ [r] \<rparr>"
      by (auto simp: producer_Send_Some)
    from mset_concat_update [OF Send(2) todo]
    have "mset (concat (producers s)) = mset (concat ((producers s)[p := rest])) + {#r#}"
      by simp
    with step.IH Send(1) room ch' show ?thesis by simp
  next
    case (Receive r ch')
    then obtain vs where "chan_buf (bus s) = r # vs" "ch' = (bus s) \<lparr> chan_buf := vs \<rparr>"
      by (auto simp: recv_Received)
    with step.IH Receive(1) show ?thesis by simp
  qed
qed

lemma plant_reachable_start: "plant_reachable plans (plant_start plans)"
  by (simp add: plant_reachable_def)

lemma plant_reachable_step:
  "plant_reachable plans s \<Longrightarrow> plant_step s s' \<Longrightarrow> plant_reachable plans s'"
  by (simp add: plant_reachable_def)

lemma plant_sends:
  "n \<le> N \<Longrightarrow> N \<le> 1000 \<Longrightarrow>
   plant_reachable (replicate N r # others)
     \<lparr> producers = replicate (N - n) r # others,
       bus = \<lparr> chan_cap = 1000, chan_buf = replicate n r \<rparr>,
       received = [] \<rparr>"
proof (induction n)
  case 0
  have "\<lparr> producers = replicate (N - 0) r # others,
       bus = \<lparr> chan_cap = 1000, chan_buf = replicate 0 r \<rparr>,
       received = [] \<rparr> = plant_start (replicate N r # others)"
    by (simp add: plant_start_def make_chan_def)
  then show ?case by (simp only: plant_reachable_start)
next
  case (Suc n)
  let ?s = "\<lparr> producers = replicate (N - n) r # others,
       bus = \<lparr> chan_cap = 1000, chan_buf = replicate n r \<rparr>,
       received = [] \<rparr>"
  let ?ch = "\<lparr> chan_cap = 1000, chan_buf = replicate n r @ [r] \<rparr>"
  from Suc have reach: "plant_reachable (replicate N r # others) ?s" by simp
  from Suc.prems have todo: "replicate (N - n) r = r # replicate (N - Suc n) r"
    by (cases "N - n") (simp_all add: Suc_diff_le)
  have "0 < length (producers ?s)" by simp
  moreover have "producer_Send (bus ?s) (producers ?s ! 0) = Some (?ch, replicate (N - Suc n) r)"
    using Suc.prems todo by (simp add: producer_Send_Some)
  ultimately have "plant_step ?s
      (?s \<lparr> producers := (producers ?s)[0 := replicate (N - Suc n) r], bus := ?ch \<rparr>)"
    by (rule plant_step.Send)
  with reach have "plant_reachable (replicate N r # others)
      (?s \<lparr> producers := (producers ?s)[0 := replicate (N - Suc n) r], bus := ?ch \<rparr>)"
    by (rule plant_reachable_step)
  moreover have "replicate n r @ [r] = replicate (Suc n) r"
    by (simp add: replicate_append_same)
  ultimately show ?case by simp
qed

lemma full_plant_reachable:
  "plant_reachable [replicate 1000 ''p1 value=1'', [''p2 value=1'']] full_plant"
  using plant_sends [of 1000 1000 "''p1 value=1''" "[[''p2 value=1'']]"]
  by (simp add: full_plant_def)

text \<open>
  Claim C8.  \<^verbatim>\<open>Start\<close> begins by making the channel, with room for 1000
  records.  In every state that producers and dispatcher reach, the capacity is still 1000
  and the channel holds at most 1000 records.  No record is dropped: the records the
  producers set out to send are those they have still to send, those in the channel and
  those the dispatcher has received.  When the channel holds 1000 records no producer's send
  completes: the only step is a receive by the dispatcher, which takes the oldest record
  and leaves every producer as it was.  After that receive the send of a producer that was
  held completes: its record joins the end of the queue and the producer goes on.
\<close>

theorem event_bus_backpressure:
  assumes "plant_reachable plans s"
  shows "hd (Start env pr) = MakeChan 1000 \<and>
         bus (plant_start plans) = make_chan 1000 \<and>
         chan_cap (bus s) = 1000 \<and>
         length (chan_buf (bus s)) \<le> 1000 \<and>
         mset (concat plans) =
           mset (concat (producers s)) + mset (chan_buf (bus s)) + mset (received s) \<and>
         (length (chan_buf (bus s)) = 1000 \<longrightarrow>
            (\<forall>p<length (producers s). producer_Send (bus s) (producers s ! p) = None) \<and>
            (\<forall>s'. plant_step s s' \<longrightarrow>
               producers s' = producers s \<and>
               received s' = received s @ [hd (chan_buf (bus s))] \<and>
               chan_buf (bus s') = tl (chan_buf (bus s)))) \<and>
         (length (chan_buf (bus s)) = 1000 \<and> p < length (producers s) \<and>
          producers s ! p = r # rest \<longrightarrow>
            (\<exists>s1 s2. plant_step s s1 \<and> producers s1 = producers s \<and>
               received s1 = received s @ [hd (chan_buf (bus s))] \<and>
               plant_step s1 s2 \<and> producers s2 = (producers s)[p := rest] \<and>
               chan_buf (bus s2) = tl (chan_buf (bus s)) @ [r] \<and>
               received s2 = received s1))"
proof -
  from plant_invariant [OF assms] have
    cap: "chan_cap (bus s) = 1000" and len: "length (chan_buf (bus s)) \<le> 1000" and
    cons: "mset (concat plans) =
      mset (concat (producers s)) + mset (chan_buf (bus s)) + mset (received s)"
    by simp_all
  have blocked: "producer_Send (bus s) todo = None" if "length (chan_buf (bus s)) = 1000" for todo
    using that cap by (simp add: producer_Send_def send_def split: list.splits)
  have only_recv: "producers s' = producers s \<and>
      received s' = received s @ [hd (chan_buf (bus s))] \<and>
      chan_buf (bus s') = tl (chan_buf (bus s))"
    if full: "length (chan_buf (bus s)) = 1000" and st: "plant_step s s'" for s'
    using st
  proof cases
    case (Send p ch' rest)
    with blocked [OF full] show ?thesis by simp
  next
    case (Receive r ch')
    then show ?thesis by (auto simp: recv_Received)
  qed
  have later: "\<exists>s1 s2. plant_step s s1 \<and> producers s1 = producers s \<and>
               received s1 = received s @ [hd (chan_buf (bus s))] \<and>
               plant_step s1 s2 \<and> producers s2 = (producers s)[p := rest] \<and>
               chan_buf (bus s2) = tl (chan_buf (bus s)) @ [r] \<and>
               received s2 = received s1"
    if full: "length (chan_buf (bus s)) = 1000" and p: "p < length (producers s)"
      and todo: "producers s ! p = r # rest"
  proof -
    from full obtain x xs where buf: "chan_buf (bus s) = x # xs" and xs: "length xs = 999"
      by (cases "chan_buf (bus s)") auto
    define s1 where "s1 = s \<lparr> bus := (bus s) \<lparr> chan_buf := xs \<rparr>, received := received s @ [x] \<rparr>"
    define s2 where "s2 = s1 \<lparr> producers := (producers s1)[p := rest],
        bus := (bus s1) \<lparr> chan_buf := xs @ [r] \<rparr> \<rparr>"
    have "recv (bus s) = Received x ((bus s) \<lparr> chan_buf := xs \<rparr>)"
      using buf by (simp add: recv_Received)
    then have st1: "plant_step s s1"
      unfolding s1_def by (rule plant_step.Receive)
    have "p < length (producers s1)"
      "producer_Send (bus s1) (producers s1 ! p) = Some ((bus s1) \<lparr> chan_buf := xs @ [r] \<rparr>, rest)"
      using p todo cap xs by (simp_all add: s1_def producer_Send_Some)
    then have st2: "plant_step s1 s2"
      unfolding s2_def by (rule plant_step.Send)
    have "producers s1 = producers s" "received s1 = received s @ [hd (chan_buf (bus s))]"
      "producers s2 = (producers s)[p := rest]" "chan_buf (bus s2) = tl (chan_buf (bus s)) @ [r]"
      "received s2 = received s1"
      by (simp_all add: s1_def s2_def buf)
    with st1 st2 show ?thesis by blast
  qed
  have "hd (Start env pr) = MakeChan 1000"
    by (simp add: Start_def)
  moreover have "bus (plant_start plans) = make_chan 1000"
    by (simp add: plant_start_def)
  ultimately show ?thesis
    using cap len cons blocked only_recv later by blast
qed

theorem event_bus_backpressure_witness:
  "plant_reachable [replicate 1000 ''p1 value=1'', [''p2 value=1'']] full_plant \<and>
   length (chan_buf (bus full_plant)) = 1000 \<and>
   producers full_plant ! 1 = [''p2 value=1''] \<and>
   producer_Send (bus full_plant) [''p2 value=1''] = None \<and>
   (\<exists>s1 s2. plant_step full_plant s1 \<and> producers s1 = producers full_plant \<and>
      received s1 = [''p1 value=1''] \<and>
      plant_step s1 s2 \<and> producers s2 = [[], []] \<and>
      chan_buf (bus s2) = replicate 999 ''p1 value=1'' @ [''p2 value=1''] \<and>
      received s2 = [''p1 value=1''])"
proof -
  have full: "length (chan_buf (bus full_plant)) = 1000"
    "producers full_plant ! 1 = [''p2 value=1'']" "1 < length (producers full_plant)"
    by (simp_all add: full_plant_def)
  have blocked: "producer_Send (bus full_plant) [''p2 value=1''] = None"
    by (simp add: producer_Send_def send_def full_plant_def)
  from event_bus_backpressure [OF full_plant_reachable, of sample_env sample_prober 1
      "''p2 value=1''" "[]"] full
  obtain s1 s2 where "plant_step full_plant s1" "producers s1 = producers full_plant"
    "received s1 = received full_plant @ [hd (chan_buf (bus full_plant))]"
    "plant_step s1 s2" "producers s2 = (producers full_plant)[1 := []]"
    "chan_buf (bus s2) = tl (chan_buf (bus full_plant)) @ [''p2 value=1'']"
    "received s2 = received s1"
    by blast
  then have "plant_step full_plant s1 \<and> producers s1 = producers full_plant \<and>
      received s1 = [''p1 value=1''] \<and>
      plant_step s1 s2 \<and> producers s2 = [[], []] \<and>
      chan_buf (bus s2) = replicate 999 ''p1 value=1'' @ [''p2 value=1''] \<and>
      received s2 = [''p1 value=1'']"
    by (simp add: full_plant_def)
  with full_plant_reachable full blocked show ?thesis by blast
qed

subsection \<open>The order in which Start starts things\<close>

text \<open>
  Claim C9 as written fails: \<^verbatim>\<open>Start\<close> calls \<^verbatim>\<open>servers.Run\<close> in its
  own flow of control, with no \<^verbatim>\<open>go\<close>.  With a \<^verbatim>\<open>servers.Run\<close> that
  does not return, no probe is ever started although two are configured; and with one that
  returns there is still no goroutine that \<^verbatim>\<open>Start\<close> made for it.
\<close>

theorem servers_Run_called_synchronously_counterexample:
  "Start blocking_servers_env sample_prober =
     [MakeChan 1000, Go DispatcherLoop, Go (SysvarsRun 10000000000 []), Call (ServersRun [])] \<and>
   Go (ProbeRun ''probe p1'') \<notin> set (Start blocking_servers_env sample_prober) \<and>
   Go (ServersRun []) \<notin> set (Start sample_env sample_prober)"
  by (simp add: Start_def blocking_servers_env_def sample_env_def sample_defs)

text \<open>
  Claim C9, as the code has it.  \<^verbatim>\<open>Start\<close> makes the channel, starts the
  dispatcher and the sysvars exporter as goroutines, and then calls
  \<^verbatim>\<open>servers.Run\<close> and waits for it: it never starts it with \<^verbatim>\<open>go\<close>.
  When that call returns, \<^verbatim>\<open>Start\<close> starts the reporter (if there is one) and
  every probe as goroutines and then blocks for ever; when it does not return,
  \<^verbatim>\<open>Start\<close> starts nothing more.
\<close>

theorem Start_order:
  "take 4 (Start env pr) =
     [MakeChan 1000, Go DispatcherLoop,
      Go (SysvarsRun (1000000 * scast (GetSysvarsIntervalMsec (c pr))) (GetSysvarsEnvVar (c pr))),
      Call (ServersRun (GetServer (c pr)))] \<and>
   (\<forall>servers. Go (ServersRun servers) \<notin> set (Start env pr)) \<and>
   (servers_Run_returns env (GetServer (c pr)) \<longrightarrow>
      drop 4 (Start env pr) =
        (case rtcReporter pr of None \<Rightarrow> [] | Some r \<Rightarrow> [Go (RtcReporterRun r)])
        @ map (\<lambda>(name, p). Go (ProbeRun p)) (Probes pr) @ [SelectForever]) \<and>
   (servers_Run_returns env (GetServer (c pr)) \<longrightarrow>
      (\<forall>name p. (name, p) \<in> set (Probes pr) \<longrightarrow> Go (ProbeRun p) \<in> set (Start env pr)) \<and>
      (\<forall>r. rtcReporter pr = Some r \<longrightarrow> Go (RtcReporterRun r) \<in> set (Start env pr))) \<and>
   (\<not> servers_Run_returns env (GetServer (c pr)) \<longrightarrow> drop 4 (Start env pr) = [])"
  by (auto simp: Start_def split: option.splits)

theorem Start_order_witness:
  "servers_Run_returns sample_env (GetServer (c sample_prober)) \<and>
   Start sample_env sample_prober =
     [MakeChan 1000, Go DispatcherLoop, Go (SysvarsRun 10000000000 []), Call (ServersRun []),
      Go (ProbeRun ''probe p1''), Go (ProbeRun ''probe p2''), SelectForever] \<and>
   \<not> servers_Run_returns blocking_servers_env (GetServer (c sample_prober)) \<and>
   drop 4 (Start blocking_servers_env sample_prober) = []"
  using Start_order [of sample_env sample_prober] Start_order [of blocking_servers_env sample_prober]
  by (simp add: Start_def blocking_servers_env_def sample_env_def sample_defs)

subsection \<open>Initialization\<close>

lemma parseSurfacers_calls:
  "parseSurfacers env defs acc = (calls, r) \<Longrightarrow> list_all is_Call calls"
  by (induction defs arbitrary: acc calls r)
     (auto simp: is_Call_def split: sum.splits prod.splits)

lemma parseSurfacers_Inr:
  "parseSurfacers env defs acc = (calls, Inr ss) \<Longrightarrow>
   \<exists>new. ss = acc @ new \<and> list_all2 (\<lambda>def s. surfacers_New env def = Inr s) defs new"
proof (induction defs arbitrary: acc calls)
  case Nil
  then show ?case by simp
next
  case (Cons def defs)
  from Cons.prems obtain s calls' where
    new: "surfacers_New env def = Inr s" and
    rest: "parseSurfacers env defs (acc @ [s]) = (calls', Inr ss)"
    by (auto split: sum.splits prod.splits)
  from Cons.IH [OF rest] obtain new' where
    "ss = (acc @ [s]) @ new'" "list_all2 (\<lambda>def s. surfacers_New env def = Inr s) defs new'"
    by blast
  with new have "ss = acc @ (s # new') \<and>
      list_all2 (\<lambda>def s. surfacers_New env def = Inr s) (def # defs) (s # new')"
    by simp
  then show ?case by blast
qed

lemma parseSurfacers_Inl:
  "parseSurfacers env defs acc = (calls, Inl err) \<Longrightarrow>
   \<exists>def\<in>set defs. surfacers_New env def = Inl err"
  by (induction defs arbitrary: acc calls) (auto split: sum.splits prod.splits)


lemma InitFromConfig_calls: "list_all is_Call (fst (InitFromConfig env configText))"
  by (auto simp: InitFromConfig_def Let_def is_Call_def list_all_iff
      split: sum.splits proc.splits option.splits prod.splits
      dest!: parseSurfacers_calls)

lemma InitFromConfig_trichotomy:
  "(\<exists>pr. snd (InitFromConfig env configText) = Return (Some pr, None)) \<or>
   (\<exists>err. snd (InitFromConfig env configText) = Return (None, Some err)) \<or>
   (\<exists>m. snd (InitFromConfig env configText) = Exit m)"
  by (simp add: InitFromConfig_def Let_def
      split: sum.splits proc.splits option.splits prod.splits)


lemma parseSurfacers_ok:
  "list_all2 (\<lambda>def s. surfacers_New env def = Inr s) defs new \<Longrightarrow>
   snd (parseSurfacers env defs acc) = Inr (acc @ new)"
  by (induction defs new arbitrary: acc rule: list_all2_induct)
     (simp_all add: case_prod_beta)

lemma parseSurfacers_Inr_iff:
  "snd (parseSurfacers env defs []) = Inr ss \<longleftrightarrow>
   list_all2 (\<lambda>def s. surfacers_New env def = Inr s) defs ss"
proof
  assume "snd (parseSurfacers env defs []) = Inr ss"
  then have "parseSurfacers env defs [] = (fst (parseSurfacers env defs []), Inr ss)"
    by (metis prod.collapse)
  from parseSurfacers_Inr [OF this]
  show "list_all2 (\<lambda>def s. surfacers_New env def = Inr s) defs ss" by simp
next
  assume "list_all2 (\<lambda>def s. surfacers_New env def = Inr s) defs ss"
  from parseSurfacers_ok [OF this, of "[]"]
  show "snd (parseSurfacers env defs []) = Inr ss" by simp
qed

lemma parseSurfacers_fails:
  "def \<in> set defs \<Longrightarrow> surfacers_New env def = Inl e \<Longrightarrow>
   \<exists>err. snd (parseSurfacers env defs acc) = Inl err"
  by (induction defs arbitrary: acc) (auto simp: case_prod_beta split: sum.splits)

lemmas init_defs =
  InitFromConfig_def newLogger_def logsNamePrefix_def sysvarsModuleName_def sample_env_def

lemma sample_init_ok:
  "InitFromConfig sample_env ''ok'' =
     ([Call (LoggerNew ''cloudprober.sysvars''), Call SysvarsInit, Call ConfigParse,
       Call ProbesInit, Call (SurfacersNew ''s1'')],
      Return (Some sample_prober, None))"
  by (simp add: init_defs Let_def sample_defs)

text \<open>
  Claim C3.  \<^verbatim>\<open>InitFromConfig\<close> ends in one of three ways: it returns a
  Prober and no error, it returns an error and no Prober, or it does not return (only when
  \<^verbatim>\<open>probes.Init\<close> does not).  Step by step, in the order of the code: a failure
  of the sysvars logger, of the parse, of the creation of the output file, of a surfacer
  (\<^verbatim>\<open>parseSurfacers\<close> fails exactly when building some surfacer fails), of the
  reporter's logger or of the reporter makes it return that error and no Prober; when no
  step fails it returns the Prober built from the results of the steps, with the surfacers
  in declared order.  Everything it does is a plain call: it starts no goroutine and makes
  no channel.  The channel and the dispatcher goroutine are the first two things
  \<^verbatim>\<open>Start\<close> makes.
\<close>

theorem InitFromConfig_all_or_nothing:
  "list_all is_Call (fst (InitFromConfig env configText)) \<and>
   take 2 (Start env pr0) = [MakeChan 1000, Go DispatcherLoop] \<and>
   ((\<exists>pr. snd (InitFromConfig env configText) = Return (Some pr, None)) \<or>
    (\<exists>err. snd (InitFromConfig env configText) = Return (None, Some err)) \<or>
    (\<exists>m. snd (InitFromConfig env configText) = Exit m)) \<and>
   (newLogger env sysvarsModuleName = Inl err \<longrightarrow>
      snd (InitFromConfig env configText) = Return (None, Some err)) \<and>
   (newLogger env sysvarsModuleName = Inr l \<longrightarrow>
     (config_Parse env configText (sysvars_Init env l) = Inl err \<longrightarrow>
        snd (InitFromConfig env configText) = Return (None, Some err)) \<and>
     (config_Parse env configText (sysvars_Init env l) = Inr cfg \<longrightarrow>
       (GetOutputFile cfg \<noteq> [] \<and> os_Create env (GetOutputFile cfg) = Inl err \<longrightarrow>
          snd (InitFromConfig env configText) = Return (None, Some err)) \<and>
       ((if GetOutputFile cfg \<noteq> [] then os_Create env (GetOutputFile cfg)
         else Inr (os_Stdout env)) = Inr f \<and>
        probes_Init env (GetProbe cfg) (GetGlobalTargetsOptions cfg) (sysvars_Init env l)
          = Return ps \<longrightarrow>
         (snd (parseSurfacers env (GetSurfacer cfg) []) = Inl err \<longrightarrow>
            snd (InitFromConfig env configText) = Return (None, Some err)) \<and>
         (snd (parseSurfacers env (GetSurfacer cfg) []) = Inr ss \<longrightarrow>
           (GetRtcReportOptions cfg = None \<longrightarrow>
              snd (InitFromConfig env configText) =
                Return (Some \<lparr> Probes = ps, logFailCnt = 0, c = cfg, outf = f,
                                rtcReporter = None, surfacers = ss \<rparr>, None)) \<and>
           (GetRtcReportOptions cfg = Some opts \<longrightarrow>
             (newLogger env ''rtc-reporter'' = Inl err \<longrightarrow>
                snd (InitFromConfig env configText) = Return (None, Some err)) \<and>
             (newLogger env ''rtc-reporter'' = Inr l2 \<longrightarrow>
               (rtcreporter_New env opts (sysvars_Init env l) l2 = Inl err \<longrightarrow>
                  snd (InitFromConfig env configText) = Return (None, Some err)) \<and>
               (rtcreporter_New env opts (sysvars_Init env l) l2 = Inr r \<longrightarrow>
                  snd (InitFromConfig env configText) =
                    Return (Some \<lparr> Probes = ps, logFailCnt = 0, c = cfg, outf = f,
                                    rtcReporter = Some r, surfacers = ss \<rparr>, None)))))))) \<and>
   (snd (parseSurfacers env defs []) = Inr ss \<longleftrightarrow>
      list_all2 (\<lambda>def s. surfacers_New env def = Inr s) defs ss) \<and>
   ((\<exists>def e. def \<in> set defs \<and> surfacers_New env def = Inl e) \<longrightarrow>
      (\<exists>e. snd (parseSurfacers env defs []) = Inl e))"
proof -
  have "take 2 (Start env pr0) = [MakeChan 1000, Go DispatcherLoop]"
    by (simp add: Start_def)
  moreover have "(\<exists>def e. def \<in> set defs \<and> surfacers_New env def = Inl e) \<longrightarrow>
      (\<exists>e. snd (parseSurfacers env defs []) = Inl e)"
    using parseSurfacers_fails [of _ defs env _ "[]"] by blast
  ultimately show ?thesis
    using InitFromConfig_calls [of env configText] InitFromConfig_trichotomy [of env configText]
      parseSurfacers_Inr_iff [of env defs ss]
    by (simp add: InitFromConfig_def Let_def case_prod_beta)
qed

theorem InitFromConfig_all_or_nothing_witness:
  "newLogger sample_env sysvarsModuleName = Inr (Logger ''cloudprober.sysvars'') \<and>
   config_Parse sample_env ''nonsense'' (sysvars_Init sample_env (Logger ''cloudprober.sysvars''))
     = Inl (Error ''parse error'') \<and>
   snd (InitFromConfig sample_env ''nonsense'') = Return (None, Some (Error ''parse error'')) \<and>
   snd (InitFromConfig sample_env ''tofile'') = Return (None, Some (Error ''permission denied'')) \<and>
   snd (InitFromConfig sample_env ''badsurfacer'')
     = Return (None, Some (Error ''unknown surfacer type'')) \<and>
   InitFromConfig sample_env ''ok'' =
     ([Call (LoggerNew ''cloudprober.sysvars''), Call SysvarsInit, Call ConfigParse,
       Call ProbesInit, Call (SurfacersNew ''s1'')],
      Return (Some sample_prober, None)) \<and>
   snd (InitFromConfig sample_env ''rtc'') =
     Return (Some (sample_prober
        \<lparr> c := sample_config \<lparr> GetRtcReportOptions := Some ''variable: rtc'' \<rparr>,
          rtcReporter := Some ''reporter'' \<rparr>), None)"
proof -
  have l: "newLogger sample_env sysvarsModuleName = Inr (Logger ''cloudprober.sysvars'')"
    by (simp add: init_defs)
  have p: "config_Parse sample_env ''nonsense''
      (sysvars_Init sample_env (Logger ''cloudprober.sysvars'')) = Inl (Error ''parse error'')"
    by (simp add: sample_env_def)
  from InitFromConfig_all_or_nothing [of sample_env "''nonsense''" sample_prober
      "Error ''parse error''" "Logger ''cloudprober.sysvars''"] l p
  have "snd (InitFromConfig sample_env ''nonsense'') = Return (None, Some (Error ''parse error''))"
    by simp
  moreover have "snd (InitFromConfig sample_env ''tofile'')
      = Return (None, Some (Error ''permission denied''))"
    "snd (InitFromConfig sample_env ''badsurfacer'')
      = Return (None, Some (Error ''unknown surfacer type''))"
    "snd (InitFromConfig sample_env ''rtc'') =
     Return (Some (sample_prober
        \<lparr> c := sample_config \<lparr> GetRtcReportOptions := Some ''variable: rtc'' \<rparr>,
          rtcReporter := Some ''reporter'' \<rparr>), None)"
    by (simp_all add: init_defs Let_def sample_defs)
  ultimately show ?thesis
    using l p sample_init_ok by simp
qed

text \<open>
  Claim C6 as written fails: \<^verbatim>\<open>probes.Init\<close> has no error result, so
  \<^verbatim>\<open>InitFromConfig\<close> has no error to return for it.  With a configuration that
  defines the probe \<^verbatim>\<open>p1\<close> twice and a \<^verbatim>\<open>probes.Init\<close> that refuses it,
  \<^verbatim>\<open>InitFromConfig\<close> does not return an error: it does not return.
\<close>

theorem probes_failure_counterexample:
  "InitFromConfig sample_env ''dup'' =
     ([Call (LoggerNew ''cloudprober.sysvars''), Call SysvarsInit, Call ConfigParse,
       Call ProbesInit],
      Exit ''Bad config: probe is already defined'')"
  by (simp add: init_defs Let_def sample_defs)

text \<open>
  Claim C6, as the code has it.  \<^verbatim>\<open>InitFromConfig\<close> does not return exactly
  when the steps before \<^verbatim>\<open>probes.Init\<close> succeed and \<^verbatim>\<open>probes.Init\<close> does
  not return; then it returns neither an error nor a Prober, so no Prober is started.  An
  error that \<^verbatim>\<open>InitFromConfig\<close> returns never comes from the probes: it is the
  error of a logger, of the parse, of the creation of the output file, of a surfacer or of
  the reporter.  When \<^verbatim>\<open>probes.Init\<close> returns, the Prober holds the map it
  returned, as it is.
\<close>

theorem probes_failure_ends_process:
  "(snd (InitFromConfig env configText) = Exit m \<longleftrightarrow>
      (\<exists>l cfg f. newLogger env sysvarsModuleName = Inr l \<and>
         config_Parse env configText (sysvars_Init env l) = Inr cfg \<and>
         (if GetOutputFile cfg \<noteq> [] then os_Create env (GetOutputFile cfg)
          else Inr (os_Stdout env)) = Inr f \<and>
         probes_Init env (GetProbe cfg) (GetGlobalTargetsOptions cfg) (sysvars_Init env l)
           = Exit m)) \<and>
   (snd (InitFromConfig env configText) = Return (None, Some err) \<longrightarrow>
      newLogger env sysvarsModuleName = Inl err \<or>
      (\<exists>l. config_Parse env configText (sysvars_Init env l) = Inl err) \<or>
      (\<exists>path. os_Create env path = Inl err) \<or>
      (\<exists>def. surfacers_New env def = Inl err) \<or>
      newLogger env ''rtc-reporter'' = Inl err \<or>
      (\<exists>opts vs l2. rtcreporter_New env opts vs l2 = Inl err)) \<and>
   (snd (InitFromConfig env configText) = Return (Some pr, None) \<longrightarrow>
      (\<exists>l cfg. newLogger env sysvarsModuleName = Inr l \<and>
         config_Parse env configText (sysvars_Init env l) = Inr cfg \<and>
         probes_Init env (GetProbe cfg) (GetGlobalTargetsOptions cfg) (sysvars_Init env l)
           = Return (Probes pr)))"
proof (intro conjI)
  show "snd (InitFromConfig env configText) = Exit m \<longleftrightarrow>
      (\<exists>l cfg f. newLogger env sysvarsModuleName = Inr l \<and>
         config_Parse env configText (sysvars_Init env l) = Inr cfg \<and>
         (if GetOutputFile cfg \<noteq> [] then os_Create env (GetOutputFile cfg)
          else Inr (os_Stdout env)) = Inr f \<and>
         probes_Init env (GetProbe cfg) (GetGlobalTargetsOptions cfg) (sysvars_Init env l)
           = Exit m)"
    by (auto simp: InitFromConfig_def Let_def
        split: sum.splits proc.splits option.splits prod.splits if_splits)
next
  show "snd (InitFromConfig env configText) = Return (None, Some err) \<longrightarrow>
      newLogger env sysvarsModuleName = Inl err \<or>
      (\<exists>l. config_Parse env configText (sysvars_Init env l) = Inl err) \<or>
      (\<exists>path. os_Create env path = Inl err) \<or>
      (\<exists>def. surfacers_New env def = Inl err) \<or>
      newLogger env ''rtc-reporter'' = Inl err \<or>
      (\<exists>opts vs l2. rtcreporter_New env opts vs l2 = Inl err)"
    by (auto simp: InitFromConfig_def Let_def
        split: sum.splits proc.splits option.splits prod.splits if_splits
        dest!: parseSurfacers_Inl)
next
  show "snd (InitFromConfig env configText) = Return (Some pr, None) \<longrightarrow>
      (\<exists>l cfg. newLogger env sysvarsModuleName = Inr l \<and>
         config_Parse env configText (sysvars_Init env l) = Inr cfg \<and>
         probes_Init env (GetProbe cfg) (GetGlobalTargetsOptions cfg) (sysvars_Init env l)
           = Return (Probes pr))"
    by (auto simp: InitFromConfig_def Let_def
        split: sum.splits proc.splits option.splits prod.splits if_splits)
qed

theorem probes_failure_ends_process_witness:
  "newLogger sample_env sysvarsModuleName = Inr (Logger ''cloudprober.sysvars'') \<and>
   config_Parse sample_env ''dup'' (sysvars_Init sample_env (Logger ''cloudprober.sysvars''))
     = Inr (sample_config \<lparr> GetProbe := [''p1'', ''p1''] \<rparr>) \<and>
   probes_Init sample_env [''p1'', ''p1''] None [(''zone'', ''us-central1-a'')]
     = Exit ''Bad config: probe is already defined'' \<and>
   snd (InitFromConfig sample_env ''dup'') = Exit ''Bad config: probe is already defined'' \<and>
   snd (InitFromConfig sample_env ''ok'') = Return (Some sample_prober, None) \<and>
   probes_Init sample_env [''p1'', ''p2''] None [(''zone'', ''us-central1-a'')]
     = Return (Probes sample_prober)"
  using probes_failure_ends_process [of sample_env "''dup''"
      "''Bad config: probe is already defined''" "Error []" sample_prober]
    probes_failure_ends_process [of sample_env "''ok''" "[]" "Error []" sample_prober]
  by (simp add: init_defs Let_def sample_defs)

subsection \<open>Source of the configuration\<close>

text \<open>
  Claim C10.  The configuration text has three sources, tried in this order.  When the flag
  \<^verbatim>\<open>config_file\<close> is not empty, the text is read from that file.  Otherwise, on
  GCE with a readable metadata attribute \<^verbatim>\<open>cloudprober_config\<close>, the text is the
  attribute's value.  Otherwise (off GCE, or the attribute cannot be read) the text is read
  from \<^verbatim>\<open>/etc/cloudprober.cfg\<close>.  Reading a file either returns its contents
  or, when the read fails, ends the process with an error message; it never returns an
  empty text in place of a file that could not be read.
\<close>

theorem getConfig_precedence:
  "(configFile env \<noteq> [] \<longrightarrow>
      snd (getConfig env) = configFileToString env (configFile env)) \<and>
   (configFile env = [] \<and> OnGCE env \<and>
      ReadFromGCEMetadata env ''cloudprober_config'' = Inr cfg \<longrightarrow>
      getConfig env = ([], Return cfg)) \<and>
   (configFile env = [] \<and>
      (\<not> OnGCE env \<or> (\<exists>e. ReadFromGCEMetadata env ''cloudprober_config'' = Inl e)) \<longrightarrow>
      snd (getConfig env) = configFileToString env ''/etc/cloudprober.cfg'') \<and>
   (\<forall>f e. ReadFile env f = Inl e \<longrightarrow>
      (\<exists>m. configFileToString env f = Exit m) \<and> configFileToString env f \<noteq> Return []) \<and>
   (\<forall>f b. ReadFile env f = Inr b \<longrightarrow> configFileToString env f = Return b)"
  by (auto simp: getConfig_def configFileToString_def configMetadataKeyName_def
      defaultConfigFile_def split: sum.splits)

theorem getConfig_precedence_witness:
  "configFile sample_main_env \<noteq> [] \<and>
   ReadFile sample_main_env (configFile sample_main_env) = Inr ''probe {}'' \<and>
   getConfig sample_main_env = ([], Return ''probe {}'') \<and>
   ReadFile sample_main_env ''/etc/cloudprober.cfg'' = Inl (Error ''no such file or directory'') \<and>
   configFileToString sample_main_env ''/etc/cloudprober.cfg''
     = Exit ''Failed to read the config file: no such file or directory'' \<and>
   configFile gce_main_env = [] \<and> OnGCE gce_main_env \<and>
   ReadFromGCEMetadata gce_main_env ''cloudprober_config'' = Inr ''surfacer {}'' \<and>
   getConfig gce_main_env = ([], Return ''surfacer {}'') \<and>
   configFile fallback_main_env = [] \<and>
   ReadFromGCEMetadata fallback_main_env ''cloudprober_config''
     = Inl (Error ''attribute not found'') \<and>
   getConfig fallback_main_env =
     ([Infof ''Error reading config from metadata. Err: attribute not found''],
      Return ''server {}'') \<and>
   snd (getConfig (gce_main_env \<lparr> OnGCE := False \<rparr>))
     = Exit ''Failed to read the config file: no such file or directory''"
  using getConfig_precedence [of sample_main_env]
    getConfig_precedence [of gce_main_env "''surfacer {}''"]
    getConfig_precedence [of fallback_main_env]
    getConfig_precedence [of "gce_main_env \<lparr> OnGCE := False \<rparr>"]
  by (simp add: sample_main_env_def gce_main_env_def fallback_main_env_def getConfig_def
      configFileToString_def configMetadataKeyName_def defaultConfigFile_def)

end
